theory Spec2Isabelle
  imports Complex_Main
begin

section \<open>JavaScript values and documents\<close>

text \<open>
  The backend (\<^verbatim>\<open>backend/index.js\<close>) and its two maintenance scripts work on loosely
  typed JSON and BSON values. A value is one of the constructors below; the JavaScript
  value \<^verbatim>\<open>undefined\<close> (a property that is absent) is \<open>None\<close> of \<open>jsval option\<close>.
  An object or a stored document is a map from property names to values.
\<close>

datatype jsnum = NaN | Fin rat | PosInf | NegInf

datatype jsval =
    Null
  | Bool bool
  | Num jsnum
  | Str string
  | ObjectId nat
  | Date nat
  | Arr "jsval list"
  | Obj "(string \<times> jsval) list"

type_synonym doc = "string \<rightharpoonup> jsval"

text \<open>Truthiness, as \<^verbatim>\<open>!x\<close>, \<^verbatim>\<open>x || y\<close> and \<^verbatim>\<open>if (x)\<close> test it.\<close>

fun truthy :: "jsval option \<Rightarrow> bool" where
  "truthy None = False"
| "truthy (Some Null) = False"
| "truthy (Some (Bool b)) = b"
| "truthy (Some (Num n)) = (n \<noteq> NaN \<and> n \<noteq> Fin 0)"
| "truthy (Some (Str s)) = (s \<noteq> [])"
| "truthy (Some (ObjectId n)) = True"
| "truthy (Some (Date t)) = True"
| "truthy (Some (Arr xs)) = True"
| "truthy (Some (Obj kvs)) = True"

definition js_or :: "jsval option \<Rightarrow> jsval option \<Rightarrow> jsval option" where
  "js_or a b = (if truthy a then a else b)"

section \<open>External collaborators\<close>

text \<open>
  Password hashing, token verification, the schema casts of the object-document mapper
  on values that are not already of the path's type, and the JavaScript runtime's
  conversions of composite values are not code of this repository. They are parameters
  of the model.
\<close>

datatype ptype = TString | TNumber | TDate | TObjectId | TStrings | TEnum "string list"

record ext =
  bcrypt_hash :: "jsval option \<Rightarrow> string option"
  jwt_verify :: "string \<Rightarrow> doc option"
  mongoose_cast :: "ptype \<Rightarrow> jsval \<Rightarrow> jsval option"
  filter_object :: "(string \<times> jsval) list \<Rightarrow> jsval option \<Rightarrow> bool"
  js_Number :: "jsval \<Rightarrow> jsnum"
  js_String :: "jsval \<Rightarrow> string"
  js_trim :: "string \<Rightarrow> string"
  now :: nat
  mail_to :: "string option"
  update_result :: "nat \<Rightarrow> nat \<Rightarrow> doc"

text \<open>
  Every call that reaches the document store may reject. \<open>faults c\<close> says that the
  call \<open>c\<close> of the operation at hand rejects.
\<close>

datatype dbcall =
    Connect
  | UserFindOne | UserCreate | UserSave | UserUpdateOne | UserFind | UserUpdateMany
  | BusinessCreate
  | LeadCreate
  | ProductCreate | ProductFindById | ProductSave

type_synonym faults = "dbcall \<Rightarrow> bool"

datatype exn = BcryptError | CastError | ValidationError | DocumentNotFound | StoreError dbcall

section \<open>The entity store\<close>

text \<open>
  A collection is the list of its documents in insertion order. Identifiers are assigned
  by the store from a counter.
\<close>

record store =
  users :: "doc list"
  businesses :: "doc list"
  leads :: "doc list"
  products :: "doc list"
  next_oid :: nat
  outbox :: "(string \<times> string) list"

text \<open>An equality condition \<^verbatim>\<open>{field: q}\<close> of a store query.\<close>

fun mongo_eq :: "jsval \<Rightarrow> jsval option \<Rightarrow> bool" where
  "mongo_eq q None = (q = Null)"
| "mongo_eq q (Some (Arr xs)) = (q = Arr xs \<or> q \<in> set xs)"
| "mongo_eq q (Some v) = (q = v)"

definition has_id :: "jsval option \<Rightarrow> doc \<Rightarrow> bool" where
  "has_id i d = (d ''_id'' = i)"

fun update_first :: "('a \<Rightarrow> bool) \<Rightarrow> ('a \<Rightarrow> 'a) \<Rightarrow> 'a list \<Rightarrow> 'a list" where
  "update_first P f [] = []"
| "update_first P f (x # xs) = (if P x then f x # xs else x # update_first P f xs)"

definition unset_fields :: "string list \<Rightarrow> doc \<Rightarrow> doc" where
  "unset_fields ks d = (\<lambda>k. if k \<in> set ks then None else d k)"

section \<open>Schemas (index.js, lines 73 to 116)\<close>

datatype path = Path string ptype "jsval option"

fun path_name :: "path \<Rightarrow> string" where
  "path_name (Path k t dflt) = k"

definition userSchema :: "path list" where
  "userSchema =
    [Path ''name'' TString None,
     Path ''email'' TString None,
     Path ''password'' TString None,
     Path ''role'' (TEnum [''admin'', ''business'', ''customer'']) (Some (Str ''business'')),
     Path ''businessId'' TObjectId None,
     Path ''phone'' TString None,
     Path ''address'' TString None,
     Path ''bio'' TString None]"

definition businessSchema :: "path list" where
  "businessSchema =
    [Path ''name'' TString None,
     Path ''owner'' TObjectId None,
     Path ''category'' TString None,
     Path ''location'' TString None,
     Path ''description'' TString None]"

definition leadSchema :: "path list" where
  "leadSchema =
    [Path ''name'' TString None,
     Path ''email'' TString None,
     Path ''phone'' TString None,
     Path ''message'' TString None,
     Path ''businessId'' TObjectId None,
     Path ''timestamp'' TDate None,
     Path ''submittedBy'' TObjectId None]"

definition productSchema :: "path list" where
  "productSchema =
    [Path ''name'' TString None,
     Path ''sku'' TString None,
     Path ''price'' TNumber None,
     Path ''quantity'' TNumber (Some (Num (Fin 0))),
     Path ''description'' TString None,
     Path ''images'' TStrings None,
     Path ''businessId'' TObjectId None]"

text \<open>
  Casting one value to the type of its path. A value already of the path's type is kept
  (an array of strings on a path of strings),
  \<^verbatim>\<open>null\<close> is kept on scalar paths, a string outside an enumeration is refused; every
  other combination is the mapper's own business. \<open>None\<close> is a refused value.
\<close>

fun is_str :: "jsval \<Rightarrow> bool" where
  "is_str (Str s) = True"
| "is_str v = False"

fun cast_value :: "ext \<Rightarrow> ptype \<Rightarrow> jsval \<Rightarrow> jsval option" where
  "cast_value e TString (Str s) = Some (Str s)"
| "cast_value e TString Null = Some Null"
| "cast_value e TNumber (Num n) = (if n = NaN then None else Some (Num n))"
| "cast_value e TNumber Null = Some Null"
| "cast_value e TDate (Date t) = Some (Date t)"
| "cast_value e TDate Null = Some Null"
| "cast_value e TObjectId (ObjectId n) = Some (ObjectId n)"
| "cast_value e TObjectId Null = Some Null"
| "cast_value e (TEnum vs) (Str s) = (if s \<in> set vs then Some (Str s) else None)"
| "cast_value e TStrings (Arr xs) =
     (if list_all is_str xs then Some (Arr xs) else mongoose_cast e TStrings (Arr xs))"
| "cast_value e t v = mongoose_cast e t v"

text \<open>
  Building a document from an object literal under a strict schema: only the schema's
  paths are read, an absent path takes its default if it has one, and the first value
  that cannot be cast makes the whole document invalid.
\<close>

fun apply_schema :: "ext \<Rightarrow> path list \<Rightarrow> doc \<Rightarrow> exn + doc" where
  "apply_schema e [] input = Inr Map.empty"
| "apply_schema e (Path k t dflt # ps) input =
     (case apply_schema e ps input of
        Inl x \<Rightarrow> Inl x
      | Inr d \<Rightarrow>
          (case input k of
             None \<Rightarrow> Inr (d(k := dflt))
           | Some v \<Rightarrow>
               (case cast_value e t v of
                  None \<Rightarrow> Inl ValidationError
                | Some w \<Rightarrow> Inr (d(k \<mapsto> w)))))"

definition stamp :: "ext \<Rightarrow> doc \<Rightarrow> doc" where
  "stamp e d = d(''createdAt'' \<mapsto> Date (now e), ''updatedAt'' \<mapsto> Date (now e))"

definition User_create :: "ext \<Rightarrow> faults \<Rightarrow> doc \<Rightarrow> store \<Rightarrow> exn + (doc \<times> store)" where
  "User_create e flt input st =
     (case apply_schema e userSchema input of
        Inl x \<Rightarrow> Inl x
      | Inr d \<Rightarrow>
          if flt UserCreate then Inl (StoreError UserCreate)
          else let u = d(''_id'' \<mapsto> ObjectId (next_oid st))
               in Inr (u, st\<lparr>users := users st @ [u], next_oid := Suc (next_oid st)\<rparr>))"

definition Business_create :: "ext \<Rightarrow> faults \<Rightarrow> doc \<Rightarrow> store \<Rightarrow> exn + (doc \<times> store)" where
  "Business_create e flt input st =
     (case apply_schema e businessSchema input of
        Inl x \<Rightarrow> Inl x
      | Inr d \<Rightarrow>
          if flt BusinessCreate then Inl (StoreError BusinessCreate)
          else let b = stamp e (d(''_id'' \<mapsto> ObjectId (next_oid st)))
               in Inr (b, st\<lparr>businesses := businesses st @ [b], next_oid := Suc (next_oid st)\<rparr>))"

text \<open>
  \<^verbatim>\<open>User.findOne({ email })\<close>: the condition is cast to the path's type; an absent or
  \<^verbatim>\<open>null\<close> value is sent as \<^verbatim>\<open>null\<close>, an object is read as query operators.
\<close>

definition User_findOne_email :: "ext \<Rightarrow> faults \<Rightarrow> jsval option \<Rightarrow> store \<Rightarrow> exn + doc option" where
  "User_findOne_email e flt email st =
     (if flt UserFindOne then Inl (StoreError UserFindOne)
      else case email of
          None \<Rightarrow> Inr (find (\<lambda>d. mongo_eq Null (d ''email'')) (users st))
        | Some Null \<Rightarrow> Inr (find (\<lambda>d. mongo_eq Null (d ''email'')) (users st))
        | Some (Obj ops) \<Rightarrow> Inr (find (\<lambda>d. filter_object e ops (d ''email'')) (users st))
        | Some v \<Rightarrow>
            (case cast_value e TString v of
               None \<Rightarrow> Inl CastError
             | Some w \<Rightarrow> Inr (find (\<lambda>d. mongo_eq w (d ''email'')) (users st))))"

text \<open>
  \<^verbatim>\<open>user.save()\<close> after \<^verbatim>\<open>user.businessId = biz._id\<close>: the modified path is written to
  the stored document with the user's identifier.
\<close>

definition User_save_businessId :: "faults \<Rightarrow> doc \<Rightarrow> store \<Rightarrow> exn + store" where
  "User_save_businessId flt user st =
     (if flt UserSave then Inl (StoreError UserSave)
      else if list_ex (has_id (user ''_id'')) (users st)
      then Inr (st\<lparr>users := update_first (has_id (user ''_id''))
                              (\<lambda>d. d(''businessId'' := user ''businessId'')) (users st)\<rparr>)
      else Inl DocumentNotFound)"

definition business_fields :: "string list" where
  "business_fields = [''category'', ''location'', ''description'']"

text \<open>\<^verbatim>\<open>User.updateOne({ _id }, { $unset: { category, location, description } })\<close>\<close>

definition User_updateOne_unset :: "faults \<Rightarrow> jsval option \<Rightarrow> store \<Rightarrow> exn + store" where
  "User_updateOne_unset flt i st =
     (if flt UserUpdateOne then Inl (StoreError UserUpdateOne)
      else Inr (st\<lparr>users := update_first (has_id i) (unset_fields business_fields) (users st)\<rparr>))"

section \<open>HTTP responses\<close>

datatype out =
    OStr string
  | OVal "jsval option"
  | ODoc doc
  | OErr exn
  | OObj "(string \<times> out) list"

datatype response = Response (status: nat) (payload: out)

definition server_error_details :: "exn \<Rightarrow> response" where
  "server_error_details x =
     Response 500 (OObj [(''error'', OStr ''Server error''), (''details'', OErr x)])"

definition server_error :: response where
  "server_error = Response 500 (OObj [(''error'', OStr ''Server error'')])"

section \<open>Registration: POST /api/auth/register (index.js, lines 138 to 188)\<close>

definition register_role :: "doc \<Rightarrow> jsval option" where
  "register_role body =
     (let role = js_or (body ''role'') (Some (Str ''business''))
      in if role \<noteq> Some (Str ''business'') \<and> role \<noteq> Some (Str ''customer'')
         then Some (Str ''business'') else role)"

definition register :: "ext \<Rightarrow> faults \<Rightarrow> doc \<Rightarrow> store \<Rightarrow> response \<times> store" where
  "register e flt body0 st =
     (let name = body0 ''name'';
          email = body0 ''email'';
          password = body0 ''password'';
          body = body0(''category'' := None, ''location'' := None, ''description'' := None);
          role = register_role body
      in case User_findOne_email e flt email st of
           Inl x \<Rightarrow> (server_error_details x, st)
         | Inr (Some found) \<Rightarrow>
             (Response 400 (OObj [(''error'', OStr ''Email already exists'')]), st)
         | Inr None \<Rightarrow>
            (case bcrypt_hash e password of
               None \<Rightarrow> (server_error_details BcryptError, st)
             | Some hashed \<Rightarrow>
                (case User_create e flt
                        (Map.empty(''name'' := name, ''email'' := email,
                                   ''password'' \<mapsto> Str hashed, ''role'' := role)) st of
                   Inl x \<Rightarrow> (server_error_details x, st)
                 | Inr (user, st1) \<Rightarrow>
                     if role = Some (Str ''business'') then
                       (case Business_create e flt
                               (Map.empty(''name'' := js_or name email,
                                          ''owner'' := user ''_id'',
                                          ''category'' := js_or (body ''category'') (Some (Str [])),
                                          ''location'' := js_or (body ''location'') (Some (Str [])),
                                          ''description'' := js_or (body ''description'') (Some (Str []))))
                               st1 of
                          Inl x \<Rightarrow> (server_error_details x, st1)
                        | Inr (biz, st2) \<Rightarrow>
                            (case User_save_businessId flt (user(''businessId'' := biz ''_id'')) st2 of
                               Inl x \<Rightarrow> (server_error_details x, st2)
                             | Inr st3 \<Rightarrow>
                                 (Response 200 (OObj [(''message'', OStr ''Business registered''),
                                                      (''businessId'', OVal (biz ''_id''))]), st3)))
                     else
                       (let st2 = (case User_updateOne_unset flt (user ''_id'') st1 of
                                     Inl x \<Rightarrow> st1
                                   | Inr s \<Rightarrow> s)
                        in (Response 200 (OObj [(''message'', OStr ''User registered''),
                                                (''userId'', OVal (user ''_id''))]), st2)))))"

section \<open>Token middleware (index.js, lines 121 to 131)\<close>

text \<open>\<^verbatim>\<open>s.split(c)\<close> for a one-character separator.\<close>

fun split_on :: "char \<Rightarrow> string \<Rightarrow> string list" where
  "split_on c [] = [[]]"
| "split_on c (x # xs) =
     (if x = c then [] # split_on c xs
      else case split_on c xs of [] \<Rightarrow> [[x]] | w # ws \<Rightarrow> (x # w) # ws)"

definition bearer_token :: "string option \<Rightarrow> string option" where
  "bearer_token authHeader =
     (case authHeader of
        None \<Rightarrow> None
      | Some h \<Rightarrow>
          if h = [] then Some []
          else case split_on CHR '' '' h of
                 a # t # rest \<Rightarrow> Some t
               | _ \<Rightarrow> None)"

definition authenticateToken :: "ext \<Rightarrow> (string \<rightharpoonup> string) \<Rightarrow> response + doc" where
  "authenticateToken e headers =
     (case bearer_token (headers ''authorization'') of
        None \<Rightarrow> Inl (Response 401 (OObj [(''error'', OStr ''Token missing'')]))
      | Some token \<Rightarrow>
          if token = [] then Inl (Response 401 (OObj [(''error'', OStr ''Token missing'')]))
          else case jwt_verify e token of
                 None \<Rightarrow> Inl (Response 403 (OObj [(''error'', OStr ''Token expired or invalid'')]))
               | Some user \<Rightarrow> Inr user)"

text \<open>A protected route runs its handler on the verified token's payload.\<close>

definition protected ::
  "ext \<Rightarrow> (string \<rightharpoonup> string) \<Rightarrow> (doc \<Rightarrow> store \<Rightarrow> response \<times> store) \<Rightarrow> store \<Rightarrow> response \<times> store" where
  "protected e headers handler st =
     (case authenticateToken e headers of
        Inl r \<Rightarrow> (r, st)
      | Inr user \<Rightarrow> handler user st)"

section \<open>Runtime conversions\<close>

fun String_js :: "ext \<Rightarrow> jsval option \<Rightarrow> string" where
  "String_js e None = ''undefined''"
| "String_js e (Some Null) = ''null''"
| "String_js e (Some (Bool b)) = (if b then ''true'' else ''false'')"
| "String_js e (Some (Str s)) = s"
| "String_js e (Some v) = js_String e v"

fun Number_js :: "ext \<Rightarrow> jsval option \<Rightarrow> jsnum" where
  "Number_js e None = NaN"
| "Number_js e (Some Null) = Fin 0"
| "Number_js e (Some (Bool b)) = (if b then Fin 1 else Fin 0)"
| "Number_js e (Some (Num n)) = n"
| "Number_js e (Some v) = js_Number e v"

fun isNaN :: "jsnum \<Rightarrow> bool" where
  "isNaN NaN = True"
| "isNaN n = False"

fun negative :: "jsnum \<Rightarrow> bool" where
  "negative (Fin r) = (r < 0)"
| "negative NegInf = True"
| "negative n = False"

fun isInteger :: "jsnum \<Rightarrow> bool" where
  "isInteger (Fin r) = (of_int (floor r) = r)"
| "isInteger n = False"

section \<open>Leads: POST /api/leads (index.js, lines 265 to 305)\<close>

definition Lead_create :: "ext \<Rightarrow> faults \<Rightarrow> doc \<Rightarrow> store \<Rightarrow> exn + (doc \<times> store)" where
  "Lead_create e flt input st =
     (case apply_schema e leadSchema input of
        Inl x \<Rightarrow> Inl x
      | Inr d \<Rightarrow>
          if flt LeadCreate then Inl (StoreError LeadCreate)
          else let l = d(''_id'' \<mapsto> ObjectId (next_oid st))
               in Inr (l, st\<lparr>leads := leads st @ [l], next_oid := Suc (next_oid st)\<rparr>))"

text \<open>
  The notification is best effort: when a mailer and a recipient are configured, a
  message with the subject line is handed to the transport.
\<close>

definition notify_lead :: "ext \<Rightarrow> jsval option \<Rightarrow> store \<Rightarrow> store" where
  "notify_lead e businessId st =
     (case mail_to e of
        None \<Rightarrow> st
      | Some notifyTo \<Rightarrow>
          st\<lparr>outbox := outbox st @
                [(notifyTo, ''New lead for business '' @ String_js e (js_or businessId (Some (Str []))))]\<rparr>)"

definition submit_lead :: "ext \<Rightarrow> faults \<Rightarrow> doc \<Rightarrow> doc \<Rightarrow> store \<Rightarrow> response \<times> store" where
  "submit_lead e flt body user st =
     (let name = body ''name'';
          phone = body ''phone'';
          message = body ''message'';
          businessId = body ''businessId'';
          email = js_or (user ''email'') (body ''email'')
      in if \<not> truthy phone \<or> \<not> truthy email
         then (Response 400 (OObj [(''error'', OStr ''phone and email are required'')]), st)
         else case Lead_create e flt
                     (Map.empty(''name'' := name, ''email'' := email, ''phone'' := phone,
                                ''message'' := message, ''businessId'' := businessId,
                                ''timestamp'' \<mapsto> Date (now e), ''submittedBy'' := user ''id'')) st of
                Inl x \<Rightarrow> (server_error, st)
              | Inr (lead, st1) \<Rightarrow>
                  (Response 200 (OObj [(''message'', OStr ''Lead sent''), (''lead'', ODoc lead)]),
                   notify_lead e businessId st1))"

definition post_leads :: "ext \<Rightarrow> faults \<Rightarrow> (string \<rightharpoonup> string) \<Rightarrow> doc \<Rightarrow> store \<Rightarrow> response \<times> store" where
  "post_leads e flt headers body st = protected e headers (submit_lead e flt body) st"

section \<open>Products (index.js, lines 383 to 472)\<close>

text \<open>The server-side validation shared by product creation and product update.\<close>

definition numPrice :: "ext \<Rightarrow> doc \<Rightarrow> jsnum" where
  "numPrice e body = Number_js e (js_or (body ''price'') (Some (Num (Fin 0))))"

definition numQty :: "ext \<Rightarrow> doc \<Rightarrow> jsnum" where
  "numQty e body = Number_js e (js_or (body ''quantity'') (Some (Num (Fin 0))))"

definition validate_product :: "ext \<Rightarrow> doc \<Rightarrow> (string \<times> out) list" where
  "validate_product e body =
     (if \<not> truthy (body ''name'') \<or> js_trim e (String_js e (body ''name'')) = []
      then [(''name'', OStr ''Name is required'')] else [])
     @ (if isNaN (numPrice e body) \<or> negative (numPrice e body)
        then [(''price'', OStr ''Price must be a non-negative number'')] else [])
     @ (if \<not> isInteger (numQty e body) \<or> negative (numQty e body)
        then [(''quantity'', OStr ''Quantity must be a non-negative integer'')] else [])"

definition validation_failed :: "(string \<times> out) list \<Rightarrow> response" where
  "validation_failed errors =
     Response 400 (OObj [(''error'', OStr ''Validation failed''), (''details'', OObj errors)])"

definition forbidden :: response where
  "forbidden = Response 403 (OObj [(''error'', OStr ''Forbidden'')])"

definition not_found :: response where
  "not_found = Response 404 (OObj [(''error'', OStr ''Not found'')])"

definition Product_create :: "ext \<Rightarrow> faults \<Rightarrow> doc \<Rightarrow> store \<Rightarrow> exn + (doc \<times> store)" where
  "Product_create e flt input st =
     (case apply_schema e productSchema input of
        Inl x \<Rightarrow> Inl x
      | Inr d \<Rightarrow>
          if flt ProductCreate then Inl (StoreError ProductCreate)
          else let p = stamp e (d(''_id'' \<mapsto> ObjectId (next_oid st)))
               in Inr (p, st\<lparr>products := products st @ [p], next_oid := Suc (next_oid st)\<rparr>))"

definition create_product :: "ext \<Rightarrow> faults \<Rightarrow> doc \<Rightarrow> doc \<Rightarrow> store \<Rightarrow> response \<times> store" where
  "create_product e flt body user st =
     (let errors = validate_product e body
      in if errors \<noteq> [] then (validation_failed errors, st)
         else
           (let bid = (if user ''role'' = Some (Str ''business'')
                       then user ''businessId'' else body ''businessId'')
            in if \<not> truthy bid
               then (Response 400 (OObj [(''error'', OStr ''businessId required'')]), st)
               else if user ''role'' = Some (Str ''business'') \<or> user ''role'' = Some (Str ''admin'')
               then (case Product_create e flt
                            (Map.empty(''name'' := body ''name'', ''sku'' := body ''sku'',
                                       ''price'' \<mapsto> Num (numPrice e body),
                                       ''quantity'' \<mapsto> Num (numQty e body),
                                       ''description'' := body ''description'',
                                       ''images'' := js_or (body ''images'') (Some (Arr [])),
                                       ''businessId'' := bid)) st of
                       Inl x \<Rightarrow> (server_error, st)
                     | Inr (p, st1) \<Rightarrow> (Response 200 (OObj [(''product'', ODoc p)]), st1))
               else (forbidden, st)))"

definition post_products :: "ext \<Rightarrow> faults \<Rightarrow> (string \<rightharpoonup> string) \<Rightarrow> doc \<Rightarrow> store \<Rightarrow> response \<times> store" where
  "post_products e flt headers body st = protected e headers (create_product e flt body) st"

text \<open>\<^verbatim>\<open>Product.findById(id)\<close> with the identifier taken from the URL.\<close>

definition Product_findById :: "ext \<Rightarrow> faults \<Rightarrow> string \<Rightarrow> store \<Rightarrow> exn + doc option" where
  "Product_findById e flt pid st =
     (if flt ProductFindById then Inl (StoreError ProductFindById)
      else case cast_value e TObjectId (Str pid) of
             None \<Rightarrow> Inl CastError
           | Some w \<Rightarrow> Inr (find (has_id (Some w)) (products st)))"

text \<open>
  \<^verbatim>\<open>Object.assign(p, updates)\<close> on a hydrated document: each listed path is set, an
  \<^verbatim>\<open>undefined\<close> value clears the path, and a value that cannot be cast fails the save.
\<close>

fun assign_fields :: "ext \<Rightarrow> path list \<Rightarrow> string list \<Rightarrow> doc \<Rightarrow> doc \<Rightarrow> exn + doc" where
  "assign_fields e [] ks updates p = Inr p"
| "assign_fields e (Path k t dflt # ps) ks updates p =
     (if k \<in> set ks
      then case updates k of
             None \<Rightarrow> assign_fields e ps ks updates (p(k := None))
           | Some v \<Rightarrow>
               (case cast_value e t v of
                  None \<Rightarrow> Inl ValidationError
                | Some w \<Rightarrow> assign_fields e ps ks updates (p(k \<mapsto> w)))
      else assign_fields e ps ks updates p)"

definition product_update_keys :: "string list" where
  "product_update_keys = [''name'', ''sku'', ''price'', ''quantity'', ''description'', ''images'']"

definition Product_save :: "ext \<Rightarrow> faults \<Rightarrow> doc \<Rightarrow> doc \<Rightarrow> store \<Rightarrow> exn + (doc \<times> store)" where
  "Product_save e flt p0 p st =
     (if flt ProductSave then Inl (StoreError ProductSave)
      else if list_all (\<lambda>k. p k = p0 k) product_update_keys then Inr (p, st)
      else if list_ex (has_id (p ''_id'')) (products st)
      then (let p' = p(''updatedAt'' \<mapsto> Date (now e))
            in Inr (p', st\<lparr>products := update_first (has_id (p ''_id'')) (\<lambda>d. p') (products st)\<rparr>))
      else Inl DocumentNotFound)"

definition update_product :: "ext \<Rightarrow> faults \<Rightarrow> string \<Rightarrow> doc \<Rightarrow> doc \<Rightarrow> store \<Rightarrow> response \<times> store" where
  "update_product e flt pid body user st =
     (case Product_findById e flt pid st of
        Inl x \<Rightarrow> (server_error, st)
      | Inr None \<Rightarrow> (not_found, st)
      | Inr (Some p) \<Rightarrow>
          if user ''role'' \<noteq> Some (Str ''admin'')
             \<and> String_js e (p ''businessId'') \<noteq> String_js e (user ''businessId'')
          then (forbidden, st)
          else
            (let errors = validate_product e body
             in if errors \<noteq> [] then (validation_failed errors, st)
                else
                  (let updates = Map.empty(''name'' := body ''name'', ''sku'' := body ''sku'',
                                           ''price'' \<mapsto> Num (numPrice e body),
                                           ''quantity'' \<mapsto> Num (numQty e body),
                                           ''description'' := body ''description'',
                                           ''images'' := body ''images'')
                   in case assign_fields e productSchema product_update_keys updates p of
                        Inl x \<Rightarrow> (server_error, st)
                      | Inr p1 \<Rightarrow>
                          (case Product_save e flt p p1 st of
                             Inl x \<Rightarrow> (server_error, st)
                           | Inr (p2, st1) \<Rightarrow> (Response 200 (ODoc p2), st1)))))"

definition put_product ::
  "ext \<Rightarrow> faults \<Rightarrow> (string \<rightharpoonup> string) \<Rightarrow> string \<Rightarrow> doc \<Rightarrow> store \<Rightarrow> response \<times> store" where
  "put_product e flt headers pid body st = protected e headers (update_product e flt pid body) st"

section \<open>Migration runner (scripts/migrateUsersToBusinesses.js)\<close>

datatype logline =
    Found nat
  | CreatedBusiness "jsval option" "jsval option"
  | FailedFor "jsval option" exn
  | MigrationComplete
  | CleaningUp
  | Counts "jsval option" "jsval option"
  | CleanupComplete

text \<open>
  The candidate query:
  \<^verbatim>\<open>{ role: 'business', $or: [ { businessId: { $exists: false } }, { businessId: null } ] }\<close>
\<close>

definition is_candidate :: "doc \<Rightarrow> bool" where
  "is_candidate u =
     (mongo_eq (Str ''business'') (u ''role'')
      \<and> (u ''businessId'' = None \<or> mongo_eq Null (u ''businessId'')))"

text \<open>The document synthesized for one candidate (lines 22 to 30).\<close>

definition synth_business :: "ext \<Rightarrow> doc \<Rightarrow> doc" where
  "synth_business e u =
     Map.empty(''name'' := js_or (js_or (u ''name'') (u ''email'')) (Some (Str ''Unnamed Business'')),
               ''owner'' := u ''_id'',
               ''category'' := js_or (u ''category'') (Some (Str [])),
               ''location'' := js_or (u ''location'') (Some (Str [])),
               ''description'' := js_or (u ''description'') (Some (Str [])),
               ''createdAt'' \<mapsto> Date (now e),
               ''updatedAt'' \<mapsto> Date (now e))"

text \<open>
  The scripts declare their models with an empty, non-strict schema: a created document
  keeps every property it is given, and gains its identifier. In the per-user step the
  faults depend on the user being processed.
\<close>

definition stored_business :: "ext \<Rightarrow> doc \<Rightarrow> nat \<Rightarrow> doc" where
  "stored_business e u n = (synth_business e u)(''_id'' \<mapsto> ObjectId n)"

type_synonym user_faults = "doc \<Rightarrow> dbcall \<Rightarrow> bool"

definition link_user :: "ext \<Rightarrow> faults \<Rightarrow> jsval option \<Rightarrow> jsval option \<Rightarrow> store \<Rightarrow> exn + store" where
  "link_user e flt uid bid st =
     (if flt UserUpdateOne then Inl (StoreError UserUpdateOne)
      else case uid of
             None \<Rightarrow> Inr (st\<lparr>users := update_first (\<lambda>d. mongo_eq Null (d ''_id''))
                                         (\<lambda>d. d(''businessId'' := bid)) (users st)\<rparr>)
           | Some v \<Rightarrow>
               (case cast_value e TObjectId v of
                  None \<Rightarrow> Inl CastError
                | Some w \<Rightarrow> Inr (st\<lparr>users := update_first (has_id (Some w))
                                                (\<lambda>d. d(''businessId'' := bid)) (users st)\<rparr>)))"

definition migrate_one :: "ext \<Rightarrow> user_faults \<Rightarrow> doc \<Rightarrow> store \<Rightarrow> logline \<times> store" where
  "migrate_one e uf u st =
     (if uf u BusinessCreate then (FailedFor (u ''email'') (StoreError BusinessCreate), st)
      else
        (let created = stored_business e u (next_oid st);
             st1 = st\<lparr>businesses := businesses st @ [created], next_oid := Suc (next_oid st)\<rparr>
         in case link_user e (uf u) (u ''_id'') (created ''_id'') st1 of
              Inl x \<Rightarrow> (FailedFor (u ''email'') x, st1)
            | Inr st2 \<Rightarrow> (CreatedBusiness (u ''email'') (created ''_id''), st2)))"

fun migrate_all :: "ext \<Rightarrow> user_faults \<Rightarrow> doc list \<Rightarrow> store \<Rightarrow> logline list \<times> store" where
  "migrate_all e uf [] st = ([], st)"
| "migrate_all e uf (u # us) st =
     (case migrate_one e uf u st of
        (l, st1) \<Rightarrow> (case migrate_all e uf us st1 of (ls, st2) \<Rightarrow> (l # ls, st2)))"

definition run_migration :: "ext \<Rightarrow> faults \<Rightarrow> user_faults \<Rightarrow> store \<Rightarrow> exn + (logline list \<times> store)" where
  "run_migration e flt uf st =
     (if flt Connect then Inl (StoreError Connect)
      else if flt UserFind then Inl (StoreError UserFind)
      else (let candidates = filter is_candidate (users st)
            in case migrate_all e uf candidates st of
                 (ls, st1) \<Rightarrow> Inr (Found (length candidates) # ls @ [MigrationComplete], st1)))"

section \<open>Cleanup runner (the script that unsets business fields on users)\<close>

text \<open>
  The filter of the bulk update:
  \<^verbatim>\<open>{ $or: [ { category: { $exists: true } }, { location: { $exists: true } }, { description: { $exists: true } } ] }\<close>
\<close>

definition has_business_field :: "doc \<Rightarrow> bool" where
  "has_business_field u =
     (u ''category'' \<noteq> None \<or> u ''location'' \<noteq> None \<or> u ''description'' \<noteq> None)"

record update_counts =
  matchedCount :: nat
  modifiedCount :: nat

definition User_updateMany_unset :: "store \<Rightarrow> update_counts \<times> store" where
  "User_updateMany_unset st =
     (\<lparr>matchedCount = length (filter has_business_field (users st)),
       modifiedCount = length (filter has_business_field (users st))\<rparr>,
      st\<lparr>users := map (\<lambda>u. if has_business_field u then unset_fields business_fields u else u)
                       (users st)\<rparr>)"

definition run_cleanup :: "ext \<Rightarrow> faults \<Rightarrow> store \<Rightarrow> exn + (logline list \<times> update_counts \<times> store)" where
  "run_cleanup e flt st =
     (if flt Connect then Inl (StoreError Connect)
      else if flt UserUpdateMany then Inl (StoreError UserUpdateMany)
      else case User_updateMany_unset st of
             (res, st1) \<Rightarrow>
               (let shown = update_result e (matchedCount res) (modifiedCount res)
                in Inr ([CleaningUp,
                         Counts (js_or (shown ''matchedCount'') (shown ''n''))
                                (js_or (shown ''modifiedCount'') (shown ''nModified'')),
                         CleanupComplete], res, st1)))"

section \<open>Well-formed stores\<close>

text \<open>
  Identifiers handed out so far are below the counter, and the users' identifiers are
  store-assigned and pairwise different.
\<close>

fun oid_below :: "nat \<Rightarrow> jsval option \<Rightarrow> bool" where
  "oid_below k (Some (ObjectId n)) = (n < k)"
| "oid_below k v = True"

definition fresh_ids :: "store \<Rightarrow> bool" where
  "fresh_ids st =
     (list_all (\<lambda>d. oid_below (next_oid st) (d ''_id'')) (users st)
      \<and> list_all (\<lambda>d. oid_below (next_oid st) (d ''_id'')) (businesses st))"

fun is_oid :: "jsval option \<Rightarrow> bool" where
  "is_oid (Some (ObjectId n)) = True"
| "is_oid v = False"

definition assigned_ids :: "doc list \<Rightarrow> bool" where
  "assigned_ids ds = (list_all (\<lambda>d. is_oid (d ''_id'')) ds \<and> distinct (map (\<lambda>d. d ''_id'') ds))"

section \<open>Concrete inputs\<close>

text \<open>A concrete environment: string values only, hashing by a fixed prefix.\<close>

definition plain_ext :: ext where
  "plain_ext =
     \<lparr>bcrypt_hash = (\<lambda>p. case p of Some (Str s) \<Rightarrow> Some (''h:'' @ s) | _ \<Rightarrow> None),
      jwt_verify = (\<lambda>t. None),
      mongoose_cast = (\<lambda>t v. None),
      filter_object = (\<lambda>ops v. False),
      js_Number = (\<lambda>v. NaN),
      js_String = (\<lambda>v. ''[object]''),
      js_trim = (\<lambda>s. s),
      now = 0,
      mail_to = None,
      update_result = (\<lambda>m n. [''matchedCount'' \<mapsto> Num (Fin (of_nat m)),
                               ''modifiedCount'' \<mapsto> Num (Fin (of_nat n))])\<rparr>"

definition no_faults :: faults where
  "no_faults = (\<lambda>c. False)"

definition empty_store :: store where
  "empty_store = \<lparr>users = [], businesses = [], leads = [], products = [], next_oid = 0, outbox = []\<rparr>"

definition acme_body :: doc where
  "acme_body =
     [''name'' \<mapsto> Str ''Acme'', ''email'' \<mapsto> Str ''a@x.com'', ''password'' \<mapsto> Str ''pw'',
      ''role'' \<mapsto> Str ''business'', ''category'' \<mapsto> Str ''Food'']"

text \<open>
  An environment in which identifiers are written in unary (\<open>ObjectId 2\<close> is the string
  \<open>ii\<close>) and the token \<open>t1\<close> belongs to the owner of business \<open>ii\<close>.
\<close>

definition owner_token :: doc where
  "owner_token =
     [''id'' \<mapsto> Str ''i'', ''role'' \<mapsto> Str ''business'', ''email'' \<mapsto> Str ''a@x.com'',
      ''businessId'' \<mapsto> Str ''ii'']"

definition unary_ext :: ext where
  "unary_ext =
     plain_ext
       \<lparr>jwt_verify := (\<lambda>t. if t = ''t1'' then Some owner_token else None),
        mongoose_cast :=
          (\<lambda>t v. case (t, v) of
                    (TObjectId, Str s) \<Rightarrow>
                      if s \<noteq> [] \<and> list_all (\<lambda>c. c = CHR ''i'') s
                      then Some (ObjectId (length s)) else None
                  | _ \<Rightarrow> None),
        js_String := (\<lambda>v. case v of ObjectId n \<Rightarrow> replicate n CHR ''i'' | _ \<Rightarrow> ''[object]'')\<rparr>"

definition auth_headers :: "string \<rightharpoonup> string" where
  "auth_headers = [''authorization'' \<mapsto> ''Bearer t1'']"

definition tea :: doc where
  "tea = [''_id'' \<mapsto> ObjectId 3, ''name'' \<mapsto> Str ''Tea'', ''price'' \<mapsto> Num (Fin 5),
          ''quantity'' \<mapsto> Num (Fin 1), ''businessId'' \<mapsto> ObjectId 4]"

definition shop_store :: store where
  "shop_store = empty_store\<lparr>products := [tea], next_oid := 5\<rparr>"

definition tea_update :: doc where
  "tea_update = [''name'' \<mapsto> Str ''Green tea'', ''price'' \<mapsto> Num (Fin 7)]"

definition lead_without_phone :: doc where
  "lead_without_phone = [''name'' \<mapsto> Str ''Bob'', ''message'' \<mapsto> Str ''hello'']"

definition coffee_body :: doc where
  "coffee_body = [''name'' \<mapsto> Str ''Coffee'', ''price'' \<mapsto> Num (Fin 3), ''businessId'' \<mapsto> Str ''iiii'']"

definition legacy_user :: doc where
  "legacy_user = [''_id'' \<mapsto> ObjectId 0, ''email'' \<mapsto> Str ''old@x.com'', ''role'' \<mapsto> Str ''customer'',
                  ''category'' \<mapsto> Str ''Food'']"

definition legacy_store :: store where
  "legacy_store = empty_store\<lparr>users := [legacy_user], next_oid := 1\<rparr>"

definition bob_body :: doc where
  "bob_body = [''name'' \<mapsto> Str ''Bob'', ''email'' \<mapsto> Str ''b@x.com'', ''password'' \<mapsto> Str ''pw'']"

definition carol_body :: doc where
  "carol_body =
     [''name'' \<mapsto> Str ''Carol'', ''email'' \<mapsto> Str ''c@x.com'', ''password'' \<mapsto> Str ''pw'',
      ''role'' \<mapsto> Str ''customer'', ''category'' \<mapsto> Str ''Food'']"

text \<open>Users as the migration runner may find them.\<close>

definition ann :: doc where
  "ann = [''_id'' \<mapsto> ObjectId 0, ''name'' \<mapsto> Str ''Ann'', ''email'' \<mapsto> Str ''ann@x.com'',
          ''role'' \<mapsto> Str ''business'']"

definition nameless :: doc where
  "nameless = [''_id'' \<mapsto> ObjectId 1, ''name'' \<mapsto> Str [], ''email'' \<mapsto> Str ''b@x.com'',
               ''role'' \<mapsto> Str ''business'', ''category'' \<mapsto> Str ''Food'']"

definition anon :: doc where
  "anon = [''_id'' \<mapsto> ObjectId 2, ''role'' \<mapsto> Str ''business'', ''businessId'' \<mapsto> Null]"

definition migration_store :: store where
  "migration_store = empty_store\<lparr>users := [ann, nameless, anon], next_oid := 3\<rparr>"

definition nameless_store :: store where
  "nameless_store = empty_store\<lparr>users := [nameless], next_oid := 2\<rparr>"

definition never :: user_faults where
  "never = (\<lambda>u c. False)"

definition link_of_anon_fails :: user_faults where
  "link_of_anon_fails = (\<lambda>u c. u ''_id'' = Some (ObjectId 2) \<and> c = UserUpdateOne)"

section \<open>Properties\<close>

subsection \<open>Evaluation and authentication\<close>

lemmas register_eval =
  register_def register_role_def js_or_def User_findOne_email_def User_create_def
  Business_create_def userSchema_def businessSchema_def User_save_businessId_def
  User_updateOne_unset_def stamp_def has_id_def Let_def

lemma protected_auth:
  "authenticateToken e headers = Inr user \<Longrightarrow> protected e headers h st = h user st"
  by (simp add: protected_def)

lemma owner_authenticated: "authenticateToken unary_ext auth_headers = Inr owner_token"
  by (simp add: authenticateToken_def bearer_token_def auth_headers_def unary_ext_def plain_ext_def)

subsection \<open>Lead submission\<close>

text \<open>
  Claim C9: an authenticated lead submission whose body has no phone is answered with
  status 400, and the store (its leads included) is left as it was.
\<close>

theorem lead_without_phone_rejected:
  assumes "authenticateToken e headers = Inr user"
      and "body ''phone'' = None"
  shows "post_leads e flt headers body st
         = (Response 400 (OObj [(''error'', OStr ''phone and email are required'')]), st)"
  using assms by (simp add: post_leads_def protected_auth submit_lead_def)

text \<open>
  The owner's token on a body without a phone.
\<close>

theorem lead_without_phone_rejected_witness:
  "authenticateToken unary_ext auth_headers = Inr owner_token
   \<and> lead_without_phone ''phone'' = None
   \<and> post_leads unary_ext no_faults auth_headers lead_without_phone shop_store
     = (Response 400 (OObj [(''error'', OStr ''phone and email are required'')]), shop_store)"
proof -
  have h: "lead_without_phone ''phone'' = None"
    by (simp add: lead_without_phone_def)
  from lead_without_phone_rejected
         [where body = lead_without_phone and flt = no_faults and st = shop_store,
          OF owner_authenticated h]
       owner_authenticated h
  show ?thesis by simp
qed

subsection \<open>Product update\<close>

text \<open>
  Claim C8: when the caller of a product update is authenticated, is not an admin, and
  the string form of the target product's businessId differs from the string form of the
  caller's businessId, the answer is 403 Forbidden and the store is unchanged.
\<close>

theorem product_update_foreign_business_forbidden:
  assumes "authenticateToken e headers = Inr user"
      and "user ''role'' \<noteq> Some (Str ''admin'')"
      and "Product_findById e flt pid st = Inr (Some p)"
      and "String_js e (p ''businessId'') \<noteq> String_js e (user ''businessId'')"
  shows "put_product e flt headers pid body st
         = (Response 403 (OObj [(''error'', OStr ''Forbidden'')]), st)"
  using assms by (simp add: put_product_def protected_auth update_product_def forbidden_def)

text \<open>
  The owner of business \<open>ii\<close> tries to update a product of business \<open>iiii\<close>.
\<close>

theorem product_update_foreign_business_forbidden_witness:
  "authenticateToken unary_ext auth_headers = Inr owner_token
   \<and> owner_token ''role'' \<noteq> Some (Str ''admin'')
   \<and> Product_findById unary_ext no_faults ''iii'' shop_store = Inr (Some tea)
   \<and> String_js unary_ext (tea ''businessId'') = ''iiii''
   \<and> String_js unary_ext (owner_token ''businessId'') = ''ii''
   \<and> put_product unary_ext no_faults auth_headers ''iii'' tea_update shop_store
     = (Response 403 (OObj [(''error'', OStr ''Forbidden'')]), shop_store)"
proof -
  have h2: "owner_token ''role'' \<noteq> Some (Str ''admin'')"
    by (simp add: owner_token_def)
  have h3: "Product_findById unary_ext no_faults ''iii'' shop_store = Inr (Some tea)"
    by (simp add: Product_findById_def no_faults_def unary_ext_def plain_ext_def shop_store_def
          empty_store_def has_id_def tea_def)
  have s1: "String_js unary_ext (tea ''businessId'') = ''iiii''"
    by (simp add: tea_def unary_ext_def plain_ext_def eval_nat_numeral)
  have s2: "String_js unary_ext (owner_token ''businessId'') = ''ii''"
    by (simp add: owner_token_def)
  have h4: "String_js unary_ext (tea ''businessId'') \<noteq> String_js unary_ext (owner_token ''businessId'')"
    by (simp add: s1 s2)
  from product_update_foreign_business_forbidden
         [where body = tea_update, OF owner_authenticated h2 h3 h4]
    owner_authenticated h2 h3 s1 s2
  show ?thesis by simp
qed

subsection \<open>Cleanup runner\<close>

lemma unset_no_business_field: "\<not> has_business_field (unset_fields business_fields u)"
  by (simp add: has_business_field_def unset_fields_def business_fields_def)

lemma cleanup_users_clean:
  "filter has_business_field (users (snd (User_updateMany_unset st))) = []"
  by (auto simp: User_updateMany_unset_def filter_empty_conv unset_no_business_field)

lemma cleanup_fields_gone:
  "list_all (\<lambda>u. u ''category'' = None \<and> u ''location'' = None \<and> u ''description'' = None)
     (users (snd (User_updateMany_unset st)))"
  by (auto simp: User_updateMany_unset_def list_all_iff has_business_field_def
        unset_fields_def business_fields_def)

lemma cleanup_clean_noop:
  "filter has_business_field (users st) = [] \<Longrightarrow> snd (User_updateMany_unset st) = st"
  by (simp add: User_updateMany_unset_def filter_empty_conv map_idI)

lemma run_cleanup_Inr:
  "run_cleanup e flt st = Inr (l, res, st1) \<Longrightarrow>
     res = fst (User_updateMany_unset st) \<and> st1 = snd (User_updateMany_unset st)"
  by (auto simp: run_cleanup_def Let_def split: if_splits prod.splits)

lemma run_cleanup_runs:
  "\<not> flt Connect \<Longrightarrow> \<not> flt UserUpdateMany \<Longrightarrow>
     \<exists>l. run_cleanup e flt st = Inr (l, fst (User_updateMany_unset st), snd (User_updateMany_unset st))"
  by (simp add: run_cleanup_def Let_def split: prod.splits)

lemma unset_business_fields:
  "unset_fields business_fields u
     = u(''category'' := None, ''location'' := None, ''description'' := None)"
  by (rule ext) (simp add: unset_fields_def business_fields_def)

lemma clean_user_unchanged:
  "\<not> has_business_field u \<Longrightarrow>
     u(''category'' := None, ''location'' := None, ''description'' := None) = u"
  by (rule ext) (simp add: has_business_field_def)

lemma cleanup_store:
  "snd (User_updateMany_unset st)
     = st\<lparr>users := map (\<lambda>u. u(''category'' := None, ''location'' := None, ''description'' := None))
                        (users st)\<rparr>"
proof -
  have "(if has_business_field u then unset_fields business_fields u else u)
          = u(''category'' := None, ''location'' := None, ''description'' := None)" for u
    by (simp add: unset_business_fields clean_user_unchanged)
  then show ?thesis by (simp add: User_updateMany_unset_def)
qed

text \<open>
  Claim C4: the cleanup runner's bulk update matches every user that has at least one of
  category, location and description and unsets all three: after the first run the store
  is the old one with every user kept, in place, minus these three properties, and
  nothing else is touched. A second run right after a first one therefore matches no
  document (and modifies nothing).
\<close>

theorem cleanup_second_run_matches_nothing:
  assumes "run_cleanup e1 flt1 st = Inr (log1, res1, st1)"
      and "run_cleanup e2 flt2 st1 = Inr (log2, res2, st2)"
  shows "matchedCount res1 = length (filter has_business_field (users st))
         \<and> list_all (\<lambda>u. u ''category'' = None \<and> u ''location'' = None \<and> u ''description'' = None) (users st1)
         \<and> matchedCount res2 = 0 \<and> modifiedCount res2 = 0 \<and> st2 = st1
         \<and> modifiedCount res1 = matchedCount res1
         \<and> st1 = st\<lparr>users := map (\<lambda>u. u(''category'' := None, ''location'' := None,
                                           ''description'' := None)) (users st)\<rparr>"
proof -
  from run_cleanup_Inr [OF assms(1)] have r1: "res1 = fst (User_updateMany_unset st)"
    and s1: "st1 = snd (User_updateMany_unset st)"
    by simp_all
  from run_cleanup_Inr [OF assms(2)] have r2: "res2 = fst (User_updateMany_unset st1)"
    and s2: "st2 = snd (User_updateMany_unset st1)"
    by simp_all
  have clean: "filter has_business_field (users st1) = []"
    unfolding s1 by (rule cleanup_users_clean)
  have "matchedCount res1 = length (filter has_business_field (users st))"
    unfolding r1 by (simp add: User_updateMany_unset_def)
  moreover have "list_all (\<lambda>u. u ''category'' = None \<and> u ''location'' = None \<and> u ''description'' = None) (users st1)"
    unfolding s1 by (rule cleanup_fields_gone)
  moreover have "matchedCount res2 = 0" "modifiedCount res2 = 0"
    unfolding r2 using clean by (simp_all add: User_updateMany_unset_def)
  moreover have "st2 = st1"
    unfolding s2 using clean by (rule cleanup_clean_noop)
  moreover have "modifiedCount res1 = matchedCount res1"
    unfolding r1 by (simp add: User_updateMany_unset_def)
  moreover have "st1 = st\<lparr>users := map (\<lambda>u. u(''category'' := None, ''location'' := None,
                                              ''description'' := None)) (users st)\<rparr>"
    unfolding s1 by (rule cleanup_store)
  ultimately show ?thesis by simp
qed

text \<open>
  A store with one legacy user that still carries a category: the first run matches it
  and keeps the user, without the category; the second run matches nothing.
\<close>

theorem cleanup_second_run_matches_nothing_witness:
  "\<exists>log1 res1 st1 log2 res2 st2.
     run_cleanup plain_ext no_faults legacy_store = Inr (log1, res1, st1)
     \<and> run_cleanup plain_ext no_faults st1 = Inr (log2, res2, st2)
     \<and> matchedCount res1 = 1 \<and> matchedCount res2 = 0 \<and> st2 = st1
     \<and> legacy_user ''category'' = Some (Str ''Food'')
     \<and> map (\<lambda>u. (u ''_id'', u ''email'', u ''role'', u ''category'')) (users st1)
         = [(Some (ObjectId 0), Some (Str ''old@x.com''), Some (Str ''customer''), None)]
     \<and> businesses st1 = [] \<and> next_oid st1 = 1"
proof -
  have nf: "\<not> no_faults Connect" "\<not> no_faults UserUpdateMany"
    by (simp_all add: no_faults_def)
  from run_cleanup_runs [OF nf] obtain log1 res1 st1
    where a: "run_cleanup plain_ext no_faults legacy_store = Inr (log1, res1, st1)"
    by blast
  from run_cleanup_runs [OF nf] obtain log2 res2 st2
    where b: "run_cleanup plain_ext no_faults st1 = Inr (log2, res2, st2)"
    by blast
  have c: "length (filter has_business_field (users legacy_store)) = 1"
    by (simp add: legacy_store_def legacy_user_def empty_store_def has_business_field_def)
  note t = cleanup_second_run_matches_nothing [OF a b]
  from t have st1: "st1 = legacy_store\<lparr>users := map (\<lambda>u. u(''category'' := None, ''location'' := None,
                                  ''description'' := None)) (users legacy_store)\<rparr>"
    by simp
  have d: "legacy_user ''category'' = Some (Str ''Food'')"
    "map (\<lambda>u. (u ''_id'', u ''email'', u ''role'', u ''category'')) (users st1)
       = [(Some (ObjectId 0), Some (Str ''old@x.com''), Some (Str ''customer''), None)]"
    "businesses st1 = []" "next_oid st1 = 1"
    unfolding st1 by (simp_all add: legacy_store_def legacy_user_def empty_store_def)
  from t c a b d show ?thesis by auto
qed

subsection \<open>Strict schemas and product creation\<close>

text \<open>
  What a strict schema yields: a property outside the schema is absent, and a path of
  the schema holds the cast of the given value, or its default.
\<close>

lemma apply_schema_other:
  "apply_schema e ps input = Inr d \<Longrightarrow> k \<notin> path_name ` set ps \<Longrightarrow> d k = None"
proof (induction ps arbitrary: d)
  case Nil
  then show ?case by auto
next
  case (Cons p ps)
  obtain k' t dflt where p: "p = Path k' t dflt" by (cases p)
  from Cons.prems show ?case
    unfolding p by (auto split: sum.splits option.splits dest: Cons.IH)
qed

lemma apply_schema_path:
  "apply_schema e ps input = Inr d \<Longrightarrow> distinct (map path_name ps) \<Longrightarrow>
   Path k t dflt \<in> set ps \<Longrightarrow>
   (case input k of
      None \<Rightarrow> d k = dflt
    | Some v \<Rightarrow> (\<exists>w. cast_value e t v = Some w \<and> d k = Some w))"
proof (induction ps arbitrary: d)
  case Nil
  then show ?case by simp
next
  case (Cons p ps)
  obtain k' t' dflt' where p: "p = Path k' t' dflt'" by (cases p)
  from Cons.prems(1) obtain d0 where d0: "apply_schema e ps input = Inr d0"
    unfolding p by (auto split: sum.splits)
  show ?case
  proof (cases "Path k t dflt = p")
    case True
    with Cons.prems(1) d0 show ?thesis
      unfolding p by (auto split: option.splits)
  next
    case False
    with Cons.prems(3) have mem: "Path k t dflt \<in> set ps" by simp
    with Cons.prems(2) have ne: "k \<noteq> k'"
      unfolding p by (force simp: image_iff)
    from Cons.prems(2) have dist: "distinct (map path_name ps)" by simp
    from Cons.prems(1) d0 ne have "d k = d0 k"
      unfolding p by (auto split: option.splits)
    with Cons.IH [OF d0 dist mem] show ?thesis by (auto split: option.splits)
  qed
qed

lemma validate_product_businessId:
  "validate_product e (body(''businessId'' := x)) = validate_product e body"
  by (simp add: validate_product_def numPrice_def numQty_def)

lemma create_product_business_ignores_body:
  "user ''role'' = Some (Str ''business'') \<Longrightarrow>
   create_product e flt (body(''businessId'' := x)) user st = create_product e flt body user st"
  by (simp add: create_product_def validate_product_businessId numPrice_def numQty_def Let_def)

lemma Product_create_businessId:
  assumes "Product_create e flt input st = Inr (p, st1)"
  shows "products st1 = products st @ [p]
         \<and> (case input ''businessId'' of
              None \<Rightarrow> p ''businessId'' = None
            | Some v \<Rightarrow> (\<exists>w. cast_value e TObjectId v = Some w \<and> p ''businessId'' = Some w))"
proof -
  from assms obtain d where d: "apply_schema e productSchema input = Inr d"
    and p: "p = stamp e (d(''_id'' \<mapsto> ObjectId (next_oid st)))"
    and s: "st1 = st\<lparr>products := products st @ [p], next_oid := Suc (next_oid st)\<rparr>"
    by (auto simp: Product_create_def Let_def split: sum.splits if_splits)
  have "distinct (map path_name productSchema)"
    and "Path ''businessId'' TObjectId None \<in> set productSchema"
    by (simp_all add: productSchema_def)
  from apply_schema_path [OF d this]
  have "case input ''businessId'' of
          None \<Rightarrow> d ''businessId'' = None
        | Some v \<Rightarrow> (\<exists>w. cast_value e TObjectId v = Some w \<and> d ''businessId'' = Some w)" .
  moreover have "p ''businessId'' = d ''businessId''"
    by (simp add: p stamp_def)
  ultimately show ?thesis using s by (simp split: option.splits)
qed

lemma create_product_ok:
  assumes "create_product e flt body user st = (r, st')" and "status r = 200"
  shows "\<exists>p. r = Response 200 (OObj [(''product'', ODoc p)])
           \<and> products st' = products st @ [p]
           \<and> (user ''role'' = Some (Str ''business'') \<or> user ''role'' = Some (Str ''admin''))
           \<and> (\<exists>v w. (if user ''role'' = Some (Str ''business'')
                      then user ''businessId'' else body ''businessId'') = Some v
                  \<and> cast_value e TObjectId v = Some w \<and> p ''businessId'' = Some w)"
proof -
  let ?bid = "if user ''role'' = Some (Str ''business'') then user ''businessId'' else body ''businessId''"
  let ?input = "Map.empty(''name'' := body ''name'', ''sku'' := body ''sku'',
                          ''price'' \<mapsto> Num (numPrice e body),
                          ''quantity'' \<mapsto> Num (numQty e body),
                          ''description'' := body ''description'',
                          ''images'' := js_or (body ''images'') (Some (Arr [])),
                          ''businessId'' := ?bid)"
  from assms have role: "user ''role'' = Some (Str ''business'') \<or> user ''role'' = Some (Str ''admin'')"
    and tr: "truthy ?bid"
    by (auto simp: create_product_def Let_def validation_failed_def forbidden_def server_error_def
          split: if_splits sum.splits)
  from assms role obtain p where pc: "Product_create e flt ?input st = Inr (p, st')"
    and r: "r = Response 200 (OObj [(''product'', ODoc p)])"
    by (auto simp: create_product_def Let_def validation_failed_def forbidden_def server_error_def
          split: if_splits sum.splits)
  from tr obtain v where v: "?bid = Some v" by (cases ?bid) auto
  have "?input ''businessId'' = Some v" using v by simp
  with Product_create_businessId [OF pc]
  obtain w where "cast_value e TObjectId v = Some w" "p ''businessId'' = Some w"
    and "products st' = products st @ [p]"
    by auto
  with r role v show ?thesis by blast
qed

text \<open>
  Claim C10: when an authenticated product creation succeeds, exactly one product is
  added. For a caller with role business its businessId is the (cast) businessId of the
  caller's token, and the outcome is the same whatever businessId the body carries; for
  any other caller the request only succeeds for an admin, whose product takes the
  body's businessId.
\<close>

theorem product_create_business_uses_token_business:
  assumes "authenticateToken e headers = Inr user"
      and "post_products e flt headers body st = (r, st')"
      and "status r = 200"
  shows "\<exists>p. r = Response 200 (OObj [(''product'', ODoc p)])
           \<and> products st' = products st @ [p]
           \<and> (user ''role'' = Some (Str ''business'') \<longrightarrow>
                (\<exists>v w. user ''businessId'' = Some v \<and> cast_value e TObjectId v = Some w
                       \<and> p ''businessId'' = Some w)
                \<and> (\<forall>x. post_products e flt headers (body(''businessId'' := x)) st = (r, st')))
           \<and> (user ''role'' \<noteq> Some (Str ''business'') \<longrightarrow>
                user ''role'' = Some (Str ''admin'')
                \<and> (\<exists>v w. body ''businessId'' = Some v \<and> cast_value e TObjectId v = Some w
                       \<and> p ''businessId'' = Some w))"
proof -
  from assms(1,2) have cp: "create_product e flt body user st = (r, st')"
    by (simp add: post_products_def protected_auth)
  from create_product_ok [OF cp assms(3)] obtain p v w
    where p: "r = Response 200 (OObj [(''product'', ODoc p)])"
      "products st' = products st @ [p]"
      "user ''role'' = Some (Str ''business'') \<or> user ''role'' = Some (Str ''admin'')"
      "(if user ''role'' = Some (Str ''business'')
        then user ''businessId'' else body ''businessId'') = Some v"
      "cast_value e TObjectId v = Some w" "p ''businessId'' = Some w"
    by blast
  have ind: "user ''role'' = Some (Str ''business'') \<Longrightarrow>
      post_products e flt headers (body(''businessId'' := x)) st = (r, st')" for x
    using assms(1) cp
    by (simp add: post_products_def protected_auth create_product_business_ignores_body)
  from p ind show ?thesis by (cases "user ''role'' = Some (Str ''business'')") auto
qed

text \<open>
  The owner of business \<open>ii\<close> creates a product while the body names business
  \<open>iiii\<close>: the new product belongs to business 2.
\<close>

theorem product_create_business_uses_token_business_witness:
  "authenticateToken unary_ext auth_headers = Inr owner_token
   \<and> owner_token ''role'' = Some (Str ''business'')
   \<and> owner_token ''businessId'' = Some (Str ''ii'')
   \<and> coffee_body ''businessId'' = Some (Str ''iiii'')
   \<and> status (fst (post_products unary_ext no_faults auth_headers coffee_body shop_store)) = 200
   \<and> map (\<lambda>p. p ''businessId'')
       (products (snd (post_products unary_ext no_faults auth_headers coffee_body shop_store)))
     = [Some (ObjectId 4), Some (ObjectId 2)]"
proof -
  let ?res = "post_products unary_ext no_faults auth_headers coffee_body shop_store"
  have pp: "?res = create_product unary_ext no_faults coffee_body owner_token shop_store"
    by (simp add: post_products_def protected_auth [OF owner_authenticated])
  have st: "status (fst ?res) = 200"
    unfolding pp
    by (simp add: create_product_def
          validate_product_def numPrice_def numQty_def js_or_def coffee_body_def owner_token_def
          unary_ext_def plain_ext_def Product_create_def productSchema_def no_faults_def Let_def)
  have h: "owner_token ''role'' = Some (Str ''business'')"
    "owner_token ''businessId'' = Some (Str ''ii'')"
    "coffee_body ''businessId'' = Some (Str ''iiii'')"
    by (simp_all add: owner_token_def coffee_body_def)
  have c: "cast_value unary_ext TObjectId (Str ''ii'') = Some (ObjectId 2)"
    by (simp add: unary_ext_def plain_ext_def)
  have old: "map (\<lambda>p. p ''businessId'') (products shop_store) = [Some (ObjectId 4)]"
    by (simp add: shop_store_def empty_store_def tea_def)
  from product_create_business_uses_token_business
         [OF owner_authenticated prod.collapse [symmetric] st]
  obtain p where "products (snd ?res) = products shop_store @ [p]"
    and "\<exists>v w. owner_token ''businessId'' = Some v \<and> cast_value unary_ext TObjectId v = Some w
            \<and> p ''businessId'' = Some w"
    using h(1) by blast
  with h c old owner_authenticated st show ?thesis by auto
qed

subsection \<open>Registration\<close>

text \<open>
  The role a registration stores: customer exactly when the body says customer.
\<close>

lemma register_role_cases:
  "register_role body = (if body ''role'' = Some (Str ''customer'')
                         then Some (Str ''customer'') else Some (Str ''business''))"
  by (auto simp: register_role_def js_or_def Let_def)

lemma register_role_deleted:
  "register_role (body(''category'' := x, ''location'' := y, ''description'' := z)) = register_role body"
  by (simp add: register_role_cases)

lemma update_first_append_fresh:
  "\<not> list_ex P xs \<Longrightarrow> P x \<Longrightarrow> update_first P f (xs @ [x]) = xs @ [f x]"
  by (induction xs) auto

lemma find_append_fresh:
  "\<not> list_ex P xs \<Longrightarrow> P x \<Longrightarrow> find P (xs @ [x]) = Some x"
  by (induction xs) auto

lemma oid_below_fresh:
  "list_all (\<lambda>d. oid_below k (d ''_id'')) ds \<Longrightarrow> k \<le> n \<Longrightarrow>
     \<not> list_ex (has_id (Some (ObjectId n))) ds"
  by (induction ds) (auto simp: has_id_def)

lemma User_create_registered:
  assumes "User_create e flt
             (Map.empty(''name'' := n, ''email'' := m, ''password'' \<mapsto> Str h,
                        ''role'' := Some (Str r))) st = Inr (u, st1)"
  shows "st1 = st\<lparr>users := users st @ [u], next_oid := Suc (next_oid st)\<rparr>
         \<and> u ''_id'' = Some (ObjectId (next_oid st))
         \<and> u ''role'' = Some (Str r)
         \<and> u ''businessId'' = None
         \<and> u ''category'' = None \<and> u ''location'' = None \<and> u ''description'' = None
         \<and> (\<forall>v. n = Some v \<longrightarrow> cast_value e TString v \<noteq> None)
         \<and> (\<forall>v. m = Some v \<longrightarrow> cast_value e TString v \<noteq> None)"
proof -
  let ?input = "Map.empty(''name'' := n, ''email'' := m, ''password'' \<mapsto> Str h,
                          ''role'' := Some (Str r))"
  from assms obtain d where d: "apply_schema e userSchema ?input = Inr d"
    and u: "u = d(''_id'' \<mapsto> ObjectId (next_oid st))"
    and s: "st1 = st\<lparr>users := users st @ [u], next_oid := Suc (next_oid st)\<rparr>"
    by (auto simp: User_create_def Let_def split: sum.splits if_splits)
  have dist: "distinct (map path_name userSchema)"
    by (simp add: userSchema_def)
  have "Path ''role'' (TEnum [''admin'', ''business'', ''customer'']) (Some (Str ''business''))
          \<in> set userSchema"
    by (simp add: userSchema_def)
  from apply_schema_path [OF d dist this]
  have role: "d ''role'' = Some (Str r)"
    by (auto split: if_splits)
  have "Path ''businessId'' TObjectId None \<in> set userSchema"
    by (simp add: userSchema_def)
  from apply_schema_path [OF d dist this]
  have bid: "d ''businessId'' = None" by simp
  have "Path ''name'' TString None \<in> set userSchema"
    by (simp add: userSchema_def)
  from apply_schema_path [OF d dist this]
  have nm: "\<forall>v. n = Some v \<longrightarrow> cast_value e TString v \<noteq> None" by auto
  have "Path ''email'' TString None \<in> set userSchema"
    by (simp add: userSchema_def)
  from apply_schema_path [OF d dist this]
  have em: "\<forall>v. m = Some v \<longrightarrow> cast_value e TString v \<noteq> None" by auto
  have other: "d ''category'' = None" "d ''location'' = None" "d ''description'' = None"
    by (rule apply_schema_other [OF d], simp add: userSchema_def)+
  from s u role bid other nm em show ?thesis by simp
qed

lemma Business_create_registered:
  assumes "Business_create e flt
             (Map.empty(''name'' := n, ''owner'' \<mapsto> ObjectId i, ''category'' \<mapsto> Str c,
                        ''location'' \<mapsto> Str l, ''description'' \<mapsto> Str t)) st = Inr (b, st1)"
  shows "st1 = st\<lparr>businesses := businesses st @ [b], next_oid := Suc (next_oid st)\<rparr>
         \<and> b ''_id'' = Some (ObjectId (next_oid st))
         \<and> b ''owner'' = Some (ObjectId i)
         \<and> b ''category'' = Some (Str c) \<and> b ''location'' = Some (Str l)
         \<and> b ''description'' = Some (Str t)"
proof -
  let ?input = "Map.empty(''name'' := n, ''owner'' \<mapsto> ObjectId i, ''category'' \<mapsto> Str c,
                        ''location'' \<mapsto> Str l, ''description'' \<mapsto> Str t)"
  from assms obtain d where d: "apply_schema e businessSchema ?input = Inr d"
    and b: "b = stamp e (d(''_id'' \<mapsto> ObjectId (next_oid st)))"
    and s: "st1 = st\<lparr>businesses := businesses st @ [b], next_oid := Suc (next_oid st)\<rparr>"
    by (auto simp: Business_create_def Let_def split: sum.splits if_splits)
  have dist: "distinct (map path_name businessSchema)"
    by (simp add: businessSchema_def)
  have "Path ''owner'' TObjectId None \<in> set businessSchema"
    by (simp add: businessSchema_def)
  from apply_schema_path [OF d dist this] have 1: "d ''owner'' = Some (ObjectId i)" by simp
  have "Path ''category'' TString None \<in> set businessSchema"
    by (simp add: businessSchema_def)
  from apply_schema_path [OF d dist this] have 2: "d ''category'' = Some (Str c)" by simp
  have "Path ''location'' TString None \<in> set businessSchema"
    by (simp add: businessSchema_def)
  from apply_schema_path [OF d dist this] have 3: "d ''location'' = Some (Str l)" by simp
  have "Path ''description'' TString None \<in> set businessSchema"
    by (simp add: businessSchema_def)
  from apply_schema_path [OF d dist this] have 4: "d ''description'' = Some (Str t)" by simp
  from s b 1 2 3 4 show ?thesis by (simp add: stamp_def)
qed

text \<open>
  Once the user is created, a Business creation can only fail through the store: its
  name is the user's name or email, which the user schema has already accepted.
\<close>

lemma Business_create_runs:
  assumes "\<not> flt BusinessCreate"
      and "\<forall>v. n = Some v \<longrightarrow> cast_value e TString v \<noteq> None"
  shows "\<exists>b st1. Business_create e flt
             (Map.empty(''name'' := n, ''owner'' \<mapsto> ObjectId i, ''category'' \<mapsto> Str c,
                        ''location'' \<mapsto> Str l, ''description'' \<mapsto> Str t)) st = Inr (b, st1)"
  using assms
  by (cases n) (auto simp: Business_create_def businessSchema_def Let_def)

lemma js_or_None [simp]: "js_or None b = b"
  by (simp add: js_or_def)

lemma fresh_users:
  "fresh_ids st \<Longrightarrow> \<not> list_ex (has_id (Some (ObjectId (next_oid st)))) (users st)"
  using oid_below_fresh [of "next_oid st" "users st" "next_oid st"]
  by (simp add: fresh_ids_def)

lemma fresh_businesses:
  "fresh_ids st \<Longrightarrow> \<not> list_ex (has_id (Some (ObjectId (Suc (next_oid st))))) (businesses st)"
  using oid_below_fresh [of "next_oid st" "businesses st" "Suc (next_oid st)"]
  by (simp add: fresh_ids_def)

text \<open>
  Every way a registration with a role other than customer can end, on a store whose
  identifiers are fresh: nothing is written; or the user is written and a store call of
  the Business step rejects; or user and Business are both written and linked. In the
  last case the Business carries empty strings as category, location and description,
  whatever the request said.
\<close>

lemma register_business_outcome:
  assumes fr: "fresh_ids st"
      and role: "body ''role'' \<noteq> Some (Str ''customer'')"
      and reg: "register e flt body st = (r, st')"
  shows "(status r \<noteq> 200 \<and> st' = st)
       \<or> (\<exists>u. status r \<noteq> 200 \<and> (flt BusinessCreate \<or> flt UserSave)
              \<and> users st' = users st @ [u]
              \<and> u ''_id'' = Some (ObjectId (next_oid st))
              \<and> u ''role'' = Some (Str ''business''))
       \<or> (\<exists>u b. r = Response 200 (OObj [(''message'', OStr ''Business registered''),
                                         (''businessId'', OVal (b ''_id''))])
              \<and> st' = st\<lparr>users := users st @ [u], businesses := businesses st @ [b],
                         next_oid := Suc (Suc (next_oid st))\<rparr>
              \<and> u ''_id'' = Some (ObjectId (next_oid st))
              \<and> u ''role'' = Some (Str ''business'')
              \<and> u ''businessId'' = Some (ObjectId (Suc (next_oid st)))
              \<and> u ''category'' = None \<and> u ''location'' = None \<and> u ''description'' = None
              \<and> b ''_id'' = Some (ObjectId (Suc (next_oid st)))
              \<and> b ''owner'' = Some (ObjectId (next_oid st))
              \<and> b ''category'' = Some (Str []) \<and> b ''location'' = Some (Str [])
              \<and> b ''description'' = Some (Str []))"
proof -
  have rr: "register_role (body(''category'' := None, ''location'' := None, ''description'' := None))
            = Some (Str ''business'')"
    using role by (simp add: register_role_deleted register_role_cases)
  consider (a) x where "User_findOne_email e flt (body ''email'') st = Inl x"
    | (b) f where "User_findOne_email e flt (body ''email'') st = Inr (Some f)"
    | (c) "User_findOne_email e flt (body ''email'') st = Inr None"
    by (cases "User_findOne_email e flt (body ''email'') st") auto
  then show ?thesis
  proof cases
    case a
    with reg show ?thesis by (auto simp: register_def Let_def server_error_details_def)
  next
    case b
    with reg show ?thesis by (auto simp: register_def Let_def)
  next
    case c
    show ?thesis
    proof (cases "bcrypt_hash e (body ''password'')")
      case None
      with c reg show ?thesis by (auto simp: register_def Let_def server_error_details_def)
    next
      case (Some h)
      let ?uin = "Map.empty(''name'' := body ''name'', ''email'' := body ''email'',
                            ''password'' \<mapsto> Str h, ''role'' := Some (Str ''business''))"
      show ?thesis
      proof (cases "User_create e flt ?uin st")
        case (Inl x)
        with c Some reg rr show ?thesis
          by (auto simp: register_def Let_def server_error_details_def)
      next
        case (Inr res)
        obtain u st1 where res: "res = (u, st1)" by (cases res)
        note uc = User_create_registered [OF Inr [unfolded res]]
        from uc have st1: "st1 = st\<lparr>users := users st @ [u], next_oid := Suc (next_oid st)\<rparr>"
          and uid: "u ''_id'' = Some (ObjectId (next_oid st))"
          and urole: "u ''role'' = Some (Str ''business'')"
          and ubid: "u ''businessId'' = None"
          and ucat: "u ''category'' = None" "u ''location'' = None" "u ''description'' = None"
          by simp_all
        let ?bin = "Map.empty(''name'' := js_or (body ''name'') (body ''email''),
                              ''owner'' \<mapsto> ObjectId (next_oid st), ''category'' \<mapsto> Str [],
                              ''location'' \<mapsto> Str [], ''description'' \<mapsto> Str [])"
        have reg2: "register e flt body st =
            (case Business_create e flt ?bin st1 of
               Inl x \<Rightarrow> (server_error_details x, st1)
             | Inr (biz, st2) \<Rightarrow>
                 (case User_save_businessId flt (u(''businessId'' := biz ''_id'')) st2 of
                    Inl x \<Rightarrow> (server_error_details x, st2)
                  | Inr st3 \<Rightarrow>
                      (Response 200 (OObj [(''message'', OStr ''Business registered''),
                                           (''businessId'', OVal (biz ''_id''))]), st3)))"
          using c Some Inr res rr uid by (simp add: register_def Let_def)
        show ?thesis
        proof (cases "Business_create e flt ?bin st1")
          case (Inl x)
          have castok: "\<forall>v. js_or (body ''name'') (body ''email'') = Some v
                          \<longrightarrow> cast_value e TString v \<noteq> None"
            using uc by (auto simp: js_or_def)
          have "flt BusinessCreate"
          proof (rule ccontr)
            assume nf: "\<not> flt BusinessCreate"
            from Business_create_runs
                   [where flt = flt and e = e and n = "js_or (body ''name'') (body ''email'')"
                      and i = "next_oid st" and c = "[]" and l = "[]" and t = "[]" and st = st1,
                    OF nf castok] Inl
            show False by auto
          qed
          with Inl reg reg2 st1 uid urole show ?thesis
            by (auto simp: server_error_details_def)
        next
          case bc: (Inr res2)
          obtain b st2 where res2: "res2 = (b, st2)" by (cases res2)
          note bf = Business_create_registered [OF bc [unfolded res2]]
          from bf st1 have st2: "st2 = st\<lparr>users := users st @ [u],
                businesses := businesses st @ [b], next_oid := Suc (Suc (next_oid st))\<rparr>"
            and bid: "b ''_id'' = Some (ObjectId (Suc (next_oid st)))"
            by simp_all
          have upd: "update_first (has_id (Some (ObjectId (next_oid st))))
                       (\<lambda>d. d(''businessId'' := b ''_id'')) (users st @ [u])
                     = users st @ [u(''businessId'' := b ''_id'')]"
            by (rule update_first_append_fresh [OF fresh_users [OF fr]]) (simp add: has_id_def uid)
          show ?thesis
          proof (cases "flt UserSave")
            case True
            with bc res2 reg reg2 st2 uid urole show ?thesis
              by (auto simp: User_save_businessId_def server_error_details_def)
          next
            case False
            have sv: "User_save_businessId flt (u(''businessId'' := b ''_id'')) st2
                      = Inr (st2\<lparr>users := users st @ [u(''businessId'' := b ''_id'')]\<rparr>)"
              using False upd by (simp add: User_save_businessId_def st2 uid has_id_def)
            let ?u = "u(''businessId'' := b ''_id'')"
            from reg reg2 bc res2 sv
            have r: "r = Response 200 (OObj [(''message'', OStr ''Business registered''),
                                             (''businessId'', OVal (b ''_id''))])"
              and "st' = st2\<lparr>users := users st @ [?u]\<rparr>"
              by simp_all
            then have st': "st' = st\<lparr>users := users st @ [?u], businesses := businesses st @ [b],
                                      next_oid := Suc (Suc (next_oid st))\<rparr>"
              by (simp add: st2)
            have uf: "?u ''_id'' = Some (ObjectId (next_oid st))"
              "?u ''role'' = Some (Str ''business'')"
              "?u ''businessId'' = Some (ObjectId (Suc (next_oid st)))"
              "?u ''category'' = None" "?u ''location'' = None" "?u ''description'' = None"
              using uid urole bid ucat by simp_all
            from bf have bfs: "b ''owner'' = Some (ObjectId (next_oid st))"
              "b ''category'' = Some (Str [])" "b ''location'' = Some (Str [])"
              "b ''description'' = Some (Str [])"
              by simp_all
            from r st' uf bid bfs show ?thesis by blast
          qed
        qed
      qed
    qed
  qed
qed

lemma unset_absent:
  "u ''category'' = None \<Longrightarrow> u ''location'' = None \<Longrightarrow> u ''description'' = None \<Longrightarrow>
     unset_fields business_fields u = u"
  by (auto simp: unset_fields_def business_fields_def)

text \<open>
  Every way a registration with role customer can end.
\<close>

lemma register_customer_outcome:
  assumes fr: "fresh_ids st"
      and role: "body ''role'' = Some (Str ''customer'')"
      and reg: "register e flt body st = (r, st')"
  shows "(status r \<noteq> 200 \<and> st' = st)
       \<or> (\<exists>u. r = Response 200 (OObj [(''message'', OStr ''User registered''),
                                       (''userId'', OVal (u ''_id''))])
              \<and> st' = st\<lparr>users := users st @ [u], next_oid := Suc (next_oid st)\<rparr>
              \<and> u ''_id'' = Some (ObjectId (next_oid st))
              \<and> u ''role'' = Some (Str ''customer'')
              \<and> u ''businessId'' = None
              \<and> u ''category'' = None \<and> u ''location'' = None \<and> u ''description'' = None)"
proof -
  have rr: "register_role (body(''category'' := None, ''location'' := None, ''description'' := None))
            = Some (Str ''customer'')"
    using role by (simp add: register_role_deleted register_role_cases)
  consider (a) x where "User_findOne_email e flt (body ''email'') st = Inl x"
    | (b) f where "User_findOne_email e flt (body ''email'') st = Inr (Some f)"
    | (c) "User_findOne_email e flt (body ''email'') st = Inr None"
    by (cases "User_findOne_email e flt (body ''email'') st") auto
  then show ?thesis
  proof cases
    case a
    with reg show ?thesis by (auto simp: register_def Let_def server_error_details_def)
  next
    case b
    with reg show ?thesis by (auto simp: register_def Let_def)
  next
    case c
    show ?thesis
    proof (cases "bcrypt_hash e (body ''password'')")
      case None
      with c reg show ?thesis by (auto simp: register_def Let_def server_error_details_def)
    next
      case (Some h)
      let ?uin = "Map.empty(''name'' := body ''name'', ''email'' := body ''email'',
                            ''password'' \<mapsto> Str h, ''role'' := Some (Str ''customer''))"
      show ?thesis
      proof (cases "User_create e flt ?uin st")
        case (Inl x)
        with c Some reg rr show ?thesis
          by (auto simp: register_def Let_def server_error_details_def)
      next
        case (Inr res)
        obtain u st1 where res: "res = (u, st1)" by (cases res)
        note uc = User_create_registered [OF Inr [unfolded res]]
        from uc have st1: "st1 = st\<lparr>users := users st @ [u], next_oid := Suc (next_oid st)\<rparr>"
          and uid: "u ''_id'' = Some (ObjectId (next_oid st))"
          and urole: "u ''role'' = Some (Str ''customer'')"
          and ubid: "u ''businessId'' = None"
          and ucat: "u ''category'' = None" "u ''location'' = None" "u ''description'' = None"
          by simp_all
        have upd: "update_first (has_id (Some (ObjectId (next_oid st))))
                     (unset_fields business_fields) (users st @ [u]) = users st @ [u]"
          using update_first_append_fresh [OF fresh_users [OF fr], of u "unset_fields business_fields"]
          by (simp add: has_id_def uid unset_absent [OF ucat])
        have same: "(case User_updateOne_unset flt (u ''_id'') st1 of Inl x \<Rightarrow> st1 | Inr s \<Rightarrow> s) = st1"
          by (simp add: User_updateOne_unset_def uid st1 upd)
        from reg c Some Inr res rr same
        have "r = Response 200 (OObj [(''message'', OStr ''User registered''),
                                      (''userId'', OVal (u ''_id''))])" and "st' = st1"
          by (simp_all add: register_def Let_def)
        with st1 uid urole ubid ucat show ?thesis by blast
      qed
    qed
  qed
qed

lemmas register_on_empty =
  register_eval empty_store_def no_faults_def plain_ext_def

text \<open>
  Claim C1 says that a registration with role business copies the request's category,
  location and description into the created Business, so that registering with category
  Food yields a Business with category Food. The handler deletes the three properties
  from the request body (lines 145 to 147) before it reads them again for the Business
  (lines 163 to 165): on the scenario's request the registration succeeds and the one
  Business created, owned by the new user, has the empty string as its category.
\<close>

theorem register_food_category_is_empty:
  "acme_body ''category'' = Some (Str ''Food'')
   \<and> status (fst (register plain_ext no_faults acme_body empty_store)) = 200
   \<and> map (\<lambda>b. (b ''owner'', b ''category''))
        (businesses (snd (register plain_ext no_faults acme_body empty_store)))
      = [(Some (ObjectId 0), Some (Str []))]"
  by (simp add: register_eval acme_body_def empty_store_def no_faults_def plain_ext_def)

text \<open>
  Claim C2: when a registration with role business succeeds, the user it created has a
  businessId that is an identifier (so neither absent nor null), the Business with that
  identifier exists, and its owner is that user's identifier.
\<close>

theorem register_business_links_user_and_business:
  assumes "fresh_ids st"
      and "register_role body = Some (Str ''business'')"
      and "register e flt body st = (r, st')"
      and "status r = 200"
  shows "\<exists>u b bid. find (has_id (Some (ObjectId (next_oid st)))) (users st') = Some u
           \<and> u ''role'' = Some (Str ''business'')
           \<and> u ''businessId'' = Some (ObjectId bid)
           \<and> find (has_id (Some (ObjectId bid))) (businesses st') = Some b
           \<and> b ''owner'' = u ''_id''"
proof -
  from assms(2) have role: "body ''role'' \<noteq> Some (Str ''customer'')"
    by (auto simp: register_role_cases split: if_splits)
  from register_business_outcome [OF assms(1) role assms(3)] assms(4)
  obtain u b where st': "st' = st\<lparr>users := users st @ [u], businesses := businesses st @ [b],
                                  next_oid := Suc (Suc (next_oid st))\<rparr>"
    and u: "u ''_id'' = Some (ObjectId (next_oid st))" "u ''role'' = Some (Str ''business'')"
      "u ''businessId'' = Some (ObjectId (Suc (next_oid st)))"
    and b: "b ''_id'' = Some (ObjectId (Suc (next_oid st)))"
      "b ''owner'' = Some (ObjectId (next_oid st))"
    by auto
  have "find (has_id (Some (ObjectId (next_oid st)))) (users st') = Some u"
    unfolding st' using find_append_fresh [OF fresh_users [OF assms(1)], of u] u(1)
    by (simp add: has_id_def)
  moreover have "find (has_id (Some (ObjectId (Suc (next_oid st))))) (businesses st') = Some b"
    unfolding st' using find_append_fresh [OF fresh_businesses [OF assms(1)], of b] b(1)
    by (simp add: has_id_def)
  ultimately show ?thesis using u b by auto
qed

text \<open>
  The Acme registration on an empty store.
\<close>

theorem register_business_links_user_and_business_witness:
  "fresh_ids empty_store
   \<and> register_role acme_body = Some (Str ''business'')
   \<and> status (fst (register plain_ext no_faults acme_body empty_store)) = 200
   \<and> (\<exists>u b bid.
        find (has_id (Some (ObjectId 0))) (users (snd (register plain_ext no_faults acme_body empty_store))) = Some u
        \<and> u ''businessId'' = Some (ObjectId bid)
        \<and> find (has_id (Some (ObjectId bid))) (businesses (snd (register plain_ext no_faults acme_body empty_store))) = Some b
        \<and> b ''owner'' = u ''_id'')"
proof -
  have h1: "fresh_ids empty_store"
    by (simp add: fresh_ids_def empty_store_def)
  have h2: "register_role acme_body = Some (Str ''business'')"
    by (simp add: register_role_cases acme_body_def)
  have h4: "status (fst (register plain_ext no_faults acme_body empty_store)) = 200"
    by (simp add: register_on_empty acme_body_def)
  have n: "next_oid empty_store = 0"
    by (simp add: empty_store_def)
  from register_business_links_user_and_business
         [where e = plain_ext and flt = no_faults and body = acme_body and st = empty_store,
          OF h1 h2 prod.collapse [symmetric] h4] h1 h2 h4
  show ?thesis unfolding n by blast
qed

text \<open>
  Claim C5: a registration with role customer never adds a Business; it either fails and
  leaves the users as they were, or succeeds and adds one user, with role customer, that
  has no businessId and none of category, location and description.
\<close>

theorem register_customer_creates_no_business:
  assumes "fresh_ids st"
      and "body ''role'' = Some (Str ''customer'')"
      and "register e flt body st = (r, st')"
  shows "businesses st' = businesses st
         \<and> ((status r \<noteq> 200 \<and> users st' = users st)
            \<or> (\<exists>u. status r = 200 \<and> users st' = users st @ [u]
                  \<and> u ''_id'' = Some (ObjectId (next_oid st))
                  \<and> u ''role'' = Some (Str ''customer'')
                  \<and> u ''businessId'' = None
                  \<and> u ''category'' = None \<and> u ''location'' = None \<and> u ''description'' = None))"
  using register_customer_outcome [OF assms] by auto

text \<open>
  A customer registration that sends a category all the same.
\<close>

theorem register_customer_creates_no_business_witness:
  "fresh_ids empty_store
   \<and> carol_body ''role'' = Some (Str ''customer'')
   \<and> carol_body ''category'' = Some (Str ''Food'')
   \<and> status (fst (register plain_ext no_faults carol_body empty_store)) = 200
   \<and> businesses (snd (register plain_ext no_faults carol_body empty_store)) = []
   \<and> (\<exists>u. users (snd (register plain_ext no_faults carol_body empty_store)) = [u]
          \<and> u ''role'' = Some (Str ''customer'')
          \<and> u ''businessId'' = None
          \<and> u ''category'' = None \<and> u ''location'' = None \<and> u ''description'' = None)"
proof -
  have h1: "fresh_ids empty_store"
    by (simp add: fresh_ids_def empty_store_def)
  have h2: "carol_body ''role'' = Some (Str ''customer'')"
    "carol_body ''category'' = Some (Str ''Food'')"
    by (simp_all add: carol_body_def)
  have h4: "status (fst (register plain_ext no_faults carol_body empty_store)) = 200"
    by (simp add: register_on_empty carol_body_def business_fields_def unset_fields_def)
  have e: "users empty_store = []" "businesses empty_store = []"
    by (simp_all add: empty_store_def)
  from register_customer_creates_no_business
         [where e = plain_ext and flt = no_faults and body = carol_body and st = empty_store,
          OF h1 h2(1) prod.collapse [symmetric]] h1 h2 h4
  show ?thesis unfolding e by auto
qed

text \<open>
  Claim C6: a successful registration persists a user, and whenever a registration
  persists a user, that user's role is customer if the body's role is the string
  customer and business in every other case; when the role is business and the store
  rejects neither the Business creation nor the saving of the user, the request succeeds
  and a Business owned by the user is created and linked to it.
\<close>

theorem register_role_is_customer_or_business:
  assumes "fresh_ids st"
      and "register e flt body st = (r, st')"
  shows "(status r = 200 \<longrightarrow> users st' \<noteq> users st)
         \<and> (users st' = users st
            \<or> (\<exists>u. users st' = users st @ [u]
                  \<and> u ''_id'' = Some (ObjectId (next_oid st))
                  \<and> (body ''role'' = Some (Str ''customer'') \<longrightarrow> u ''role'' = Some (Str ''customer''))
                  \<and> (body ''role'' \<noteq> Some (Str ''customer'') \<longrightarrow> u ''role'' = Some (Str ''business''))
                  \<and> (u ''role'' = Some (Str ''business'') \<and> \<not> flt BusinessCreate \<and> \<not> flt UserSave \<longrightarrow>
                       status r = 200
                       \<and> (\<exists>b bid. businesses st' = businesses st @ [b]
                              \<and> b ''_id'' = Some (ObjectId bid)
                              \<and> u ''businessId'' = Some (ObjectId bid)
                              \<and> b ''owner'' = u ''_id''))))"
proof (cases "body ''role'' = Some (Str ''customer'')")
  case True
  from register_customer_outcome [OF assms(1) True assms(2)] True
  show ?thesis by auto
next
  case False
  from register_business_outcome [OF assms(1) False assms(2)] False
  show ?thesis by auto
qed

text \<open>
  A registration without a role.
\<close>

theorem register_role_is_customer_or_business_witness:
  "fresh_ids empty_store
   \<and> bob_body ''role'' = None
   \<and> (\<exists>u b bid. users (snd (register plain_ext no_faults bob_body empty_store)) = [u]
          \<and> u ''role'' = Some (Str ''business'')
          \<and> businesses (snd (register plain_ext no_faults bob_body empty_store)) = [b]
          \<and> b ''_id'' = Some (ObjectId bid)
          \<and> u ''businessId'' = Some (ObjectId bid)
          \<and> b ''owner'' = u ''_id'')"
proof -
  have h1: "fresh_ids empty_store"
    by (simp add: fresh_ids_def empty_store_def)
  have h2: "bob_body ''role'' = None"
    by (simp add: bob_body_def)
  have h4: "status (fst (register plain_ext no_faults bob_body empty_store)) = 200"
    by (simp add: register_on_empty bob_body_def)
  have e: "users empty_store = []" "businesses empty_store = []"
    by (simp_all add: empty_store_def)
  have nf: "\<not> no_faults BusinessCreate" "\<not> no_faults UserSave"
    by (simp_all add: no_faults_def)
  from register_role_is_customer_or_business
         [where e = plain_ext and flt = no_faults and body = bob_body and st = empty_store,
          OF h1 prod.collapse [symmetric]] h1 h2 h4 nf
  show ?thesis unfolding e by auto
qed

subsection \<open>Migration runner\<close>

lemma link_user_businesses:
  "link_user e flt uid bid st = Inr st1 \<Longrightarrow>
     businesses st1 = businesses st \<and> next_oid st1 = next_oid st"
  by (auto simp: link_user_def split: if_splits option.splits)

lemma migrate_one_businesses:
  "businesses (snd (migrate_one e uf u st)) =
     (if uf u BusinessCreate then businesses st
      else businesses st @ [stored_business e u (next_oid st)])"
  by (auto simp: migrate_one_def Let_def split: sum.splits dest: link_user_businesses)

text \<open>
  The Businesses a run of the loop adds: one per processed user whose creation the store
  does not reject, in order, each the document synthesized from that user.
\<close>

lemma migrate_all_businesses:
  "\<exists>bs. businesses (snd (migrate_all e uf cs st)) = businesses st @ bs
        \<and> list_all2 (\<lambda>u b. \<exists>n. b = stored_business e u n)
             (filter (\<lambda>u. \<not> uf u BusinessCreate) cs) bs"
proof (induction cs arbitrary: st)
  case Nil
  then show ?case by simp
next
  case (Cons u cs)
  let ?st1 = "snd (migrate_one e uf u st)"
  from Cons.IH [of ?st1] obtain bs
    where bs: "businesses (snd (migrate_all e uf cs ?st1)) = businesses ?st1 @ bs"
      and rel: "list_all2 (\<lambda>u b. \<exists>n. b = stored_business e u n)
                  (filter (\<lambda>u. \<not> uf u BusinessCreate) cs) bs"
    by blast
  have step: "snd (migrate_all e uf (u # cs) st) = snd (migrate_all e uf cs ?st1)"
    by (simp split: prod.splits)
  show ?case
  proof (cases "uf u BusinessCreate")
    case True
    with bs have "businesses (snd (migrate_all e uf cs ?st1)) = businesses st @ bs"
      by (simp add: migrate_one_businesses)
    moreover from True rel
    have "list_all2 (\<lambda>u b. \<exists>n. b = stored_business e u n)
            (filter (\<lambda>u. \<not> uf u BusinessCreate) (u # cs)) bs"
      by simp
    ultimately show ?thesis unfolding step by blast
  next
    case False
    let ?b = "stored_business e u (next_oid st)"
    from False bs have "businesses (snd (migrate_all e uf cs ?st1)) = businesses st @ (?b # bs)"
      by (simp add: migrate_one_businesses)
    moreover from False rel
    have "list_all2 (\<lambda>u b. \<exists>n. b = stored_business e u n)
            (filter (\<lambda>u. \<not> uf u BusinessCreate) (u # cs)) (?b # bs)"
      by auto
    ultimately show ?thesis unfolding step by blast
  qed
qed

lemma run_migration_Inr:
  "run_migration e flt uf st = Inr (ls, st') \<Longrightarrow>
     ls = Found (length (filter is_candidate (users st)))
            # fst (migrate_all e uf (filter is_candidate (users st)) st) @ [MigrationComplete]
     \<and> st' = snd (migrate_all e uf (filter is_candidate (users st)) st)"
  by (auto simp: run_migration_def Let_def split: if_splits prod.splits)

lemma run_migration_store:
  "\<not> flt Connect \<Longrightarrow> \<not> flt UserFind \<Longrightarrow>
     snd (projr (run_migration e flt uf st))
       = snd (migrate_all e uf (filter is_candidate (users st)) st)"
  by (simp add: run_migration_def Let_def split: prod.splits)

lemma migrate_all_single:
  "snd (migrate_all e uf [u] st) = snd (migrate_one e uf u st)"
  by (simp split: prod.splits)

lemma run_migration_runs:
  "\<not> flt Connect \<Longrightarrow> \<not> flt UserFind \<Longrightarrow> \<exists>ls st'. run_migration e flt uf st = Inr (ls, st')"
  by (simp add: run_migration_def Let_def split: prod.splits)

lemma stored_business_fields:
  assumes "b = stored_business e u n"
  shows "b ''name'' = (if truthy (u ''name'') then u ''name''
                       else if truthy (u ''email'') then u ''email''
                       else Some (Str ''Unnamed Business''))
         \<and> b ''category'' = (if truthy (u ''category'') then u ''category'' else Some (Str []))
         \<and> b ''location'' = (if truthy (u ''location'') then u ''location'' else Some (Str []))
         \<and> b ''description'' = (if truthy (u ''description'') then u ''description'' else Some (Str []))
         \<and> b ''owner'' = u ''_id''"
  unfolding assms by (simp add: stored_business_def synth_business_def js_or_def)

text \<open>
  Claim C7, as the code has it: the runner adds one Business for each candidate whose
  creation the store accepts. Its name is the user's name if that is truthy (present,
  not null, not the empty string), else the user's email if that is truthy, else the
  literal Unnamed Business; its category, location and description are the user's own
  values when truthy and the empty string otherwise; its owner is the user's identifier.
\<close>

theorem migration_business_from_truthy_fields:
  assumes "run_migration e flt uf st = Inr (ls, st')"
  shows "\<exists>bs. businesses st' = businesses st @ bs
           \<and> list_all2
                (\<lambda>u b. b ''name'' = (if truthy (u ''name'') then u ''name''
                                     else if truthy (u ''email'') then u ''email''
                                     else Some (Str ''Unnamed Business''))
                      \<and> b ''category'' = (if truthy (u ''category'') then u ''category'' else Some (Str []))
                      \<and> b ''location'' = (if truthy (u ''location'') then u ''location'' else Some (Str []))
                      \<and> b ''description'' = (if truthy (u ''description'') then u ''description'' else Some (Str []))
                      \<and> b ''owner'' = u ''_id'')
                (filter (\<lambda>u. is_candidate u \<and> \<not> uf u BusinessCreate) (users st)) bs"
proof -
  from run_migration_Inr [OF assms]
  have st': "st' = snd (migrate_all e uf (filter is_candidate (users st)) st)" by simp
  from migrate_all_businesses [of e uf "filter is_candidate (users st)" st] obtain bs
    where bs: "businesses st' = businesses st @ bs"
      and rel: "list_all2 (\<lambda>u b. \<exists>n. b = stored_business e u n)
                  (filter (\<lambda>u. is_candidate u \<and> \<not> uf u BusinessCreate) (users st)) bs"
    unfolding st' by (auto simp: conj_commute)
  from rel have "list_all2
                (\<lambda>u b. b ''name'' = (if truthy (u ''name'') then u ''name''
                                     else if truthy (u ''email'') then u ''email''
                                     else Some (Str ''Unnamed Business''))
                      \<and> b ''category'' = (if truthy (u ''category'') then u ''category'' else Some (Str []))
                      \<and> b ''location'' = (if truthy (u ''location'') then u ''location'' else Some (Str []))
                      \<and> b ''description'' = (if truthy (u ''description'') then u ''description'' else Some (Str []))
                      \<and> b ''owner'' = u ''_id'')
                (filter (\<lambda>u. is_candidate u \<and> \<not> uf u BusinessCreate) (users st)) bs"
    by (rule list_all2_mono) (erule exE, erule stored_business_fields)
  with bs show ?thesis by blast
qed

lemma migration_store_candidates:
  "filter (\<lambda>u. is_candidate u \<and> \<not> never u BusinessCreate) (users migration_store)
     = [ann, nameless, anon]"
  by (simp add: migration_store_def empty_store_def never_def is_candidate_def
        ann_def nameless_def anon_def)

text \<open>
  Three candidates: one with a name, one whose name is the empty string, one with
  neither name nor email.
\<close>

theorem migration_business_from_truthy_fields_witness:
  "\<exists>ls st'. run_migration plain_ext no_faults never migration_store = Inr (ls, st')
      \<and> map (\<lambda>b. (b ''name'', b ''category'')) (businesses st')
        = [(Some (Str ''Ann''), Some (Str [])),
           (Some (Str ''b@x.com''), Some (Str ''Food'')),
           (Some (Str ''Unnamed Business''), Some (Str []))]"
proof -
  have nf: "\<not> no_faults Connect" "\<not> no_faults UserFind"
    by (simp_all add: no_faults_def)
  from run_migration_runs [OF nf] obtain ls st'
    where run: "run_migration plain_ext no_faults never migration_store = Inr (ls, st')"
    by blast
  from migration_business_from_truthy_fields [OF run] obtain bs
    where bs: "businesses st' = businesses migration_store @ bs"
      and rel: "list_all2
                (\<lambda>u b. b ''name'' = (if truthy (u ''name'') then u ''name''
                                     else if truthy (u ''email'') then u ''email''
                                     else Some (Str ''Unnamed Business''))
                      \<and> b ''category'' = (if truthy (u ''category'') then u ''category'' else Some (Str []))
                      \<and> b ''location'' = (if truthy (u ''location'') then u ''location'' else Some (Str []))
                      \<and> b ''description'' = (if truthy (u ''description'') then u ''description'' else Some (Str []))
                      \<and> b ''owner'' = u ''_id'')
                [ann, nameless, anon] bs"
    unfolding migration_store_candidates by blast
  from rel obtain b1 b2 b3 where b: "bs = [b1, b2, b3]"
    by (auto simp: list_all2_Cons1)
  have old: "businesses migration_store = []"
    by (simp add: migration_store_def empty_store_def)
  from rel have "map (\<lambda>b. (b ''name'', b ''category'')) bs
        = [(Some (Str ''Ann''), Some (Str [])),
           (Some (Str ''b@x.com''), Some (Str ''Food'')),
           (Some (Str ''Unnamed Business''), Some (Str []))]"
    unfolding b by (simp add: ann_def nameless_def anon_def)
  with run bs old show ?thesis by auto
qed

text \<open>
  Claim C7 reads: the name equals user.name if present. A candidate whose name is present
  but empty gets a Business named after the email, not after the name.
\<close>

theorem migration_empty_name_is_skipped:
  "nameless ''name'' = Some (Str [])
   \<and> is_candidate nameless
   \<and> businesses (snd (projr (run_migration plain_ext no_faults never nameless_store)))
       = [stored_business plain_ext nameless 2]
   \<and> stored_business plain_ext nameless 2 ''name'' = Some (Str ''b@x.com'')
   \<and> stored_business plain_ext nameless 2 ''name'' \<noteq> nameless ''name''"
proof -
  have c: "is_candidate nameless"
    by (simp add: is_candidate_def nameless_def)
  have cands: "filter is_candidate (users nameless_store) = [nameless]"
    by (simp add: nameless_store_def empty_store_def c)
  have "snd (projr (run_migration plain_ext no_faults never nameless_store))
        = snd (migrate_one plain_ext never nameless nameless_store)"
    by (simp add: run_migration_store no_faults_def cands migrate_all_single
          del: migrate_all.simps)
  then have r: "businesses (snd (projr (run_migration plain_ext no_faults never nameless_store)))
           = [stored_business plain_ext nameless 2]"
    by (simp add: migrate_one_businesses never_def nameless_store_def empty_store_def)
  have n: "stored_business plain_ext nameless 2 ''name'' = Some (Str ''b@x.com'')"
    "nameless ''name'' = Some (Str [])"
    by (simp_all add: stored_business_def synth_business_def js_or_def nameless_def)
  from c r n show ?thesis by simp
qed

text \<open>
  Linking a user whose identifier was assigned by the store changes the first, and with
  pairwise different identifiers the only, user with that identifier.
\<close>

lemma link_user_oid:
  "link_user e flt (Some (ObjectId n)) bid st =
     (if flt UserUpdateOne then Inl (StoreError UserUpdateOne)
      else Inr (st\<lparr>users := update_first (has_id (Some (ObjectId n)))
                              (\<lambda>d. d(''businessId'' := bid)) (users st)\<rparr>))"
  by (simp add: link_user_def)

lemma update_first_distinct:
  "distinct (map (\<lambda>d. d ''_id'') xs) \<Longrightarrow> u \<in> set xs \<Longrightarrow>
     update_first (has_id (u ''_id'')) f xs = map (\<lambda>d. if d = u then f d else d) xs"
proof (induction xs)
  case Nil
  then show ?case by simp
next
  case (Cons x xs)
  show ?case
  proof (cases "x = u")
    case True
    with Cons.prems(1) have "u \<notin> set xs" by (auto simp: image_iff)
    then have "map (\<lambda>d. if d = u then f d else d) xs = xs"
      by (auto intro: map_idI)
    with True show ?thesis by (simp add: has_id_def)
  next
    case False
    with Cons.prems(2) have mem: "u \<in> set xs" by simp
    with Cons.prems(1) have "x ''_id'' \<noteq> u ''_id''" by (force simp: image_iff)
    with False Cons.IH [OF _ mem] Cons.prems(1) show ?thesis
      by (simp add: has_id_def)
  qed
qed

text \<open>The users after one step of the loop, when identifiers are store-assigned.\<close>

lemma migrate_one_users:
  assumes "assigned_ids (users st)" and "u \<in> set (users st)"
  shows "\<exists>n. users (snd (migrate_one e uf u st)) =
           (if \<not> uf u BusinessCreate \<and> \<not> uf u UserUpdateOne
            then map (\<lambda>d. if d = u then d(''businessId'' \<mapsto> ObjectId n) else d) (users st)
            else users st)"
proof -
  from assms obtain k where k: "u ''_id'' = Some (ObjectId k)"
    by (auto simp: assigned_ids_def list_all_iff elim: is_oid.elims)
  from assms have dist: "distinct (map (\<lambda>d. d ''_id'') (users st))"
    by (simp add: assigned_ids_def)
  have idc: "stored_business e u (next_oid st) ''_id'' = Some (ObjectId (next_oid st))"
    by (simp add: stored_business_def)
  show ?thesis
  proof (cases "\<not> uf u BusinessCreate \<and> \<not> uf u UserUpdateOne")
    case True
    then have "users (snd (migrate_one e uf u st)) =
        update_first (has_id (u ''_id'')) (\<lambda>d. d(''businessId'' \<mapsto> ObjectId (next_oid st))) (users st)"
      by (simp add: migrate_one_def Let_def idc k link_user_oid)
    with True update_first_distinct [OF dist assms(2)] show ?thesis by auto
  next
    case False
    then have "users (snd (migrate_one e uf u st)) = users st"
      by (auto simp: migrate_one_def Let_def idc k link_user_oid)
    with False show ?thesis by auto
  qed
qed

lemma assigned_ids_map:
  "assigned_ids xs \<Longrightarrow> (\<And>d. d \<in> set xs \<Longrightarrow> g d ''_id'' = d ''_id'') \<Longrightarrow> assigned_ids (map g xs)"
proof -
  assume a: "assigned_ids xs" and g: "\<And>d. d \<in> set xs \<Longrightarrow> g d ''_id'' = d ''_id''"
  have 1: "list_all (\<lambda>d. is_oid (d ''_id'')) (map g xs)"
    using a g by (simp add: assigned_ids_def list_all_iff)
  have 2: "map (\<lambda>d. d ''_id'') (map g xs) = map (\<lambda>d. d ''_id'') xs"
    using g by simp
  have "distinct (map (\<lambda>d. d ''_id'') (map g xs))"
    by (subst 2) (simp add: a [unfolded assigned_ids_def])
  with 1 show ?thesis by (simp only: assigned_ids_def)
qed

lemma migrate_all_users:
  assumes "assigned_ids (users st)" and "set cs \<subseteq> set (users st)" and "distinct cs"
  shows "list_all2
           (\<lambda>d d'. if d \<in> set cs \<and> \<not> uf d BusinessCreate \<and> \<not> uf d UserUpdateOne
                    then \<exists>n. d' = d(''businessId'' \<mapsto> ObjectId n) else d' = d)
           (users st) (users (snd (migrate_all e uf cs st)))"
  using assms
proof (induction cs arbitrary: st)
  case Nil
  then show ?case by (simp add: list_all2_same)
next
  case (Cons u cs)
  let ?ok = "\<lambda>d. \<not> uf d BusinessCreate \<and> \<not> uf d UserUpdateOne"
  let ?st1 = "snd (migrate_one e uf u st)"
  from Cons.prems have u_in: "u \<in> set (users st)" and cs_in: "set cs \<subseteq> set (users st)"
    and u_notin: "u \<notin> set cs" and dcs: "distinct cs"
    by auto
  from Cons.prems(1) have dist: "distinct (map (\<lambda>d. d ''_id'') (users st))"
    by (simp add: assigned_ids_def)
  from migrate_one_users [OF Cons.prems(1) u_in, of e uf] obtain n
    where us1: "users ?st1 =
           (if ?ok u then map (\<lambda>d. if d = u then d(''businessId'' \<mapsto> ObjectId n) else d) (users st)
            else users st)"
    by blast
  define g where "g = (\<lambda>d. if ?ok u \<and> d = u then d(''businessId'' \<mapsto> ObjectId n) else d)"
  have us1g: "users ?st1 = map g (users st)"
    unfolding us1 g_def by (auto simp: map_idI)
  have gid: "g d ''_id'' = d ''_id''" for d
    by (simp add: g_def)
  have a1: "assigned_ids (users ?st1)"
    unfolding us1g by (rule assigned_ids_map [OF Cons.prems(1)]) (rule gid)
  have sub1: "set cs \<subseteq> set (users ?st1)"
  proof
    fix c assume c: "c \<in> set cs"
    with u_notin have "c \<noteq> u" by auto
    then have "g c = c" by (simp add: g_def)
    moreover from c cs_in have "c \<in> set (users st)" by auto
    ultimately show "c \<in> set (users ?st1)"
      unfolding us1g by (metis image_eqI set_map)
  qed
  have step: "snd (migrate_all e uf (u # cs) st) = snd (migrate_all e uf cs ?st1)"
    by (simp split: prod.splits)
  from Cons.IH [OF a1 sub1 dcs]
  have ih: "list_all2
           (\<lambda>d d'. if g d \<in> set cs \<and> ?ok (g d)
                    then \<exists>n. d' = (g d)(''businessId'' \<mapsto> ObjectId n) else d' = g d)
           (users st) (users (snd (migrate_all e uf cs ?st1)))"
    unfolding us1g by (simp add: list_all2_map1)
  have "list_all2
           (\<lambda>d d'. if d \<in> set (u # cs) \<and> ?ok d
                    then \<exists>n. d' = d(''businessId'' \<mapsto> ObjectId n) else d' = d)
           (users st) (users (snd (migrate_all e uf cs ?st1)))"
  proof (rule list.rel_mono_strong [OF ih])
    fix d d'
    assume d_in: "d \<in> set (users st)"
      and r: "if g d \<in> set cs \<and> ?ok (g d)
              then \<exists>n. d' = (g d)(''businessId'' \<mapsto> ObjectId n) else d' = g d"
    show "if d \<in> set (u # cs) \<and> ?ok d
          then \<exists>n. d' = d(''businessId'' \<mapsto> ObjectId n) else d' = d"
    proof (cases "d = u")
      case True
      have "g u \<notin> set cs"
      proof
        assume m: "g u \<in> set cs"
        with cs_in have "g u \<in> set (users st)" by auto
        with dist u_in gid [of u] have "g u = u"
          by (metis distinct_map inj_onD)
        with m u_notin show False by simp
      qed
      with r True have "d' = g u" by simp
      then show ?thesis
        unfolding True g_def by auto
    next
      case False
      then have gd: "g d = d" by (simp add: g_def)
      from r have "if d \<in> set cs \<and> ?ok d
                   then \<exists>n. d' = d(''businessId'' \<mapsto> ObjectId n) else d' = d"
        by (simp only: gd)
      with False show ?thesis by auto
    qed
  qed
  then show ?case unfolding step .
qed

lemma linked_not_candidate: "\<not> is_candidate (d(''businessId'' \<mapsto> ObjectId n))"
  by (simp add: is_candidate_def)

lemma candidates_after:
  assumes "list_all2
           (\<lambda>d d'. if is_candidate d \<and> ok d
                    then \<exists>n. d' = d(''businessId'' \<mapsto> ObjectId n) else d' = d) xs ys"
  shows "filter is_candidate ys = filter (\<lambda>d. is_candidate d \<and> \<not> ok d) xs"
  using assms
proof (induction rule: list_all2_induct)
  case Nil
  then show ?case by simp
next
  case (Cons x xs y ys)
  then show ?case
    by (cases "is_candidate x \<and> ok x") (auto simp: linked_not_candidate)
qed

text \<open>
  After a run, the users that the candidate query still finds are the candidates of
  before for which a store call rejected.
\<close>

lemma migration_candidates_after:
  assumes "assigned_ids (users st)"
  shows "filter is_candidate (users (snd (migrate_all e uf (filter is_candidate (users st)) st)))
         = filter (\<lambda>u. is_candidate u \<and> (uf u BusinessCreate \<or> uf u UserUpdateOne)) (users st)"
proof -
  let ?cs = "filter is_candidate (users st)"
  let ?ok = "\<lambda>d. \<not> uf d BusinessCreate \<and> \<not> uf d UserUpdateOne"
  from assms have "distinct (users st)"
    by (simp add: assigned_ids_def distinct_map)
  then have dcs: "distinct ?cs" by simp
  have sub: "set ?cs \<subseteq> set (users st)" by auto
  have "list_all2
           (\<lambda>d d'. if is_candidate d \<and> ?ok d
                    then \<exists>n. d' = d(''businessId'' \<mapsto> ObjectId n) else d' = d)
           (users st) (users (snd (migrate_all e uf ?cs st)))"
    by (rule list.rel_mono_strong [OF migrate_all_users [OF assms sub dcs]]) auto
  from candidates_after [OF this] show ?thesis by simp
qed

text \<open>
  Claim C3: the runner's candidate query is evaluated on the current state. With no
  candidate it reports 0 users found and leaves the store as it is, creating no Business.
  On a store whose users carry store-assigned, pairwise different identifiers, the
  candidates after any run are exactly the former candidates whose Business creation or
  linking was rejected (none, if nothing was rejected), and a second run reports and
  loops over exactly those users.
\<close>

theorem migration_rerun_takes_unlinked_users_only:
  assumes "assigned_ids (users st)"
      and "run_migration e flt uf st = Inr (ls, st')"
  shows "(filter is_candidate (users st) = [] \<longrightarrow> ls = [Found 0, MigrationComplete] \<and> st' = st)
         \<and> filter is_candidate (users st')
             = filter (\<lambda>u. is_candidate u \<and> (uf u BusinessCreate \<or> uf u UserUpdateOne)) (users st)
         \<and> (list_all (\<lambda>u. \<not> uf u BusinessCreate \<and> \<not> uf u UserUpdateOne)
                (filter is_candidate (users st))
              \<longrightarrow> filter is_candidate (users st') = [])
         \<and> (\<forall>e2 flt2 uf2 ls2 st2.
               run_migration e2 flt2 uf2 st' = Inr (ls2, st2) \<longrightarrow>
                 ls2 = Found (length (filter (\<lambda>u. is_candidate u
                                  \<and> (uf u BusinessCreate \<or> uf u UserUpdateOne)) (users st)))
                        # fst (migrate_all e2 uf2
                                (filter (\<lambda>u. is_candidate u
                                   \<and> (uf u BusinessCreate \<or> uf u UserUpdateOne)) (users st)) st')
                        @ [MigrationComplete]
                 \<and> st2 = snd (migrate_all e2 uf2
                                (filter (\<lambda>u. is_candidate u
                                   \<and> (uf u BusinessCreate \<or> uf u UserUpdateOne)) (users st)) st'))"
proof -
  let ?F = "filter (\<lambda>u. is_candidate u \<and> (uf u BusinessCreate \<or> uf u UserUpdateOne)) (users st)"
  from run_migration_Inr [OF assms(2)]
  have ls: "ls = Found (length (filter is_candidate (users st)))
                  # fst (migrate_all e uf (filter is_candidate (users st)) st) @ [MigrationComplete]"
    and st': "st' = snd (migrate_all e uf (filter is_candidate (users st)) st)"
    by simp_all
  have none: "filter is_candidate (users st) = [] \<longrightarrow> ls = [Found 0, MigrationComplete] \<and> st' = st"
    using ls st' by simp
  have after: "filter is_candidate (users st') = ?F"
    unfolding st' by (rule migration_candidates_after [OF assms(1)])
  have allok: "list_all (\<lambda>u. \<not> uf u BusinessCreate \<and> \<not> uf u UserUpdateOne)
                 (filter is_candidate (users st)) \<longrightarrow> filter is_candidate (users st') = []"
    unfolding after by (auto simp: list_all_iff filter_empty_conv)
  have rerun: "ls2 = Found (length ?F) # fst (migrate_all e2 uf2 ?F st') @ [MigrationComplete]
               \<and> st2 = snd (migrate_all e2 uf2 ?F st')"
    if "run_migration e2 flt2 uf2 st' = Inr (ls2, st2)" for e2 flt2 uf2 ls2 st2
    using run_migration_Inr [OF that] unfolding after by simp
  from none after allok rerun show ?thesis by blast
qed

text \<open>
  Three candidates, the linking of the third rejected: the second run finds one user.
  And a store whose only user is a customer: nothing is found, nothing changes.
\<close>

theorem migration_rerun_takes_unlinked_users_only_witness:
  "assigned_ids (users migration_store)
   \<and> (\<exists>ls st'. run_migration plain_ext no_faults link_of_anon_fails migration_store = Inr (ls, st')
         \<and> filter is_candidate (users st') = [anon]
         \<and> (\<exists>ls2 st2. run_migration plain_ext no_faults never st' = Inr (ls2, st2)
               \<and> hd ls2 = Found 1))
   \<and> assigned_ids (users legacy_store)
   \<and> filter is_candidate (users legacy_store) = []
   \<and> run_migration plain_ext no_faults never legacy_store
       = Inr ([Found 0, MigrationComplete], legacy_store)"
proof -
  have a0: "assigned_ids (users legacy_store)"
    by (simp add: assigned_ids_def legacy_store_def empty_store_def legacy_user_def)
  have z: "filter is_candidate (users legacy_store) = []"
    by (simp add: legacy_store_def empty_store_def legacy_user_def is_candidate_def)
  have nf0: "\<not> no_faults Connect" "\<not> no_faults UserFind"
    by (simp_all add: no_faults_def)
  from run_migration_runs [OF nf0] obtain ls0 st0
    where run0: "run_migration plain_ext no_faults never legacy_store = Inr (ls0, st0)"
    by blast
  from migration_rerun_takes_unlinked_users_only [OF a0 run0] z
  have "ls0 = [Found 0, MigrationComplete]" "st0 = legacy_store"
    by simp_all
  with run0 have none: "run_migration plain_ext no_faults never legacy_store
       = Inr ([Found 0, MigrationComplete], legacy_store)"
    by simp
  have a: "assigned_ids (users migration_store)"
    by (simp add: assigned_ids_def migration_store_def empty_store_def ann_def nameless_def anon_def)
  have nf: "\<not> no_faults Connect" "\<not> no_faults UserFind"
    by (simp_all add: no_faults_def)
  from run_migration_runs [OF nf] obtain ls st'
    where run: "run_migration plain_ext no_faults link_of_anon_fails migration_store = Inr (ls, st')"
    by blast
  from run_migration_runs [OF nf] obtain ls2 st2
    where rerun: "run_migration plain_ext no_faults never st' = Inr (ls2, st2)"
    by blast
  have F: "filter (\<lambda>u. is_candidate u \<and> (link_of_anon_fails u BusinessCreate
                                          \<or> link_of_anon_fails u UserUpdateOne))
             (users migration_store) = [anon]"
    by (simp add: migration_store_def empty_store_def link_of_anon_fails_def is_candidate_def
          ann_def nameless_def anon_def)
  note t = migration_rerun_takes_unlinked_users_only [OF a run, unfolded F]
  from t have "filter is_candidate (users st') = [anon]" by simp
  moreover from t [THEN conjunct2, THEN conjunct2, THEN conjunct2, rule_format, OF rerun]
  have "hd ls2 = Found 1" by simp
  ultimately show ?thesis using a run rerun a0 z none by blast
qed

end
